theory Spec2Isabelle
  imports Complex_Main "HOL-Library.Word" "HOL-Library.Log_Nat"
begin

section \<open>Byte buffers and their textual encodings\<close>

text \<open>
  A \<^verbatim>\<open>Uint8Array\<close> or \<^verbatim>\<open>Buffer\<close> is a list of 8-bit words. A JavaScript string is
  modelled by the list of the bytes of its UTF-8 encoding, so \<^verbatim>\<open>Buffer.from(s)\<close> is the
  identity on the representation.
\<close>

type_synonym byte = "8 word"
type_synonym bytes = "byte list"

definition hexdigit :: "nat \<Rightarrow> char" where
  "hexdigit n = ''0123456789abcdef'' ! (n mod 16)"

text \<open>\<^verbatim>\<open>buf.toString('hex')\<close>: two lower-case digits per byte, high nibble first.\<close>

definition byte_toHex :: "byte \<Rightarrow> string" where
  "byte_toHex b = [hexdigit (unat b div 16), hexdigit (unat b mod 16)]"

definition toString_hex :: "bytes \<Rightarrow> string" where
  "toString_hex bs = concat (map byte_toHex bs)"

text \<open>
  \<^verbatim>\<open>s.substring(a, b)\<close> for non-negative integer arguments: both are clamped to the
  length of the string and swapped when \<open>a > b\<close>.
\<close>

definition substring :: "string \<Rightarrow> nat \<Rightarrow> nat \<Rightarrow> string" where
  "substring s a b =
     (let a' = min a (length s); b' = min b (length s);
          lo = min a' b'; hi = max a' b'
      in take (hi - lo) (drop lo s))"

section \<open>Address derivation\<close>

text \<open>
  \<^verbatim>\<open>
  function getAddressFromPubKey(pubKey: Uint8Array): string {
    const hash = createHash('sha256').update(pubKey).digest();
    const ripemd = createHash('ripemd160').update(hash).digest();
    return 'secret' + Buffer.from(ripemd).toString('hex').substring(0, 40);
  }
  \<close>
  The two digests come from the platform's \<^verbatim>\<open>crypto\<close> module; they are parameters of
  the model.
\<close>

definition getAddressFromPubKey :: "(bytes \<Rightarrow> bytes) \<Rightarrow> (bytes \<Rightarrow> bytes) \<Rightarrow> bytes \<Rightarrow> string" where
  "getAddressFromPubKey sha256_digest ripemd160_digest pubKey =
     (let hash = sha256_digest pubKey;
          ripemd = ripemd160_digest hash
      in ''secret'' @ substring (toString_hex ripemd) 0 40)"

definition is_hexdigit :: "char \<Rightarrow> bool" where
  "is_hexdigit c = (c \<in> set ''0123456789abcdef'')"

section \<open>JavaScript values\<close>

text \<open>
  A JavaScript number is an IEEE 754 binary64 value. The finite ones are represented by
  the rational they denote; negative zero is identified with zero (the two print alike,
  compare equal, and are never divided by here).
\<close>

datatype jsnum = NaN | PosInf | NegInf | Fin rat

text \<open>
  The values that \<^verbatim>\<open>any\<close>-typed data built from literals and parsed JSON can take. An
  object is the list of its own properties in enumeration (insertion) order.
\<close>

datatype jsval =
    JUndefined
  | JNull
  | JBool bool
  | JNum jsnum
  | JStr string
  | JArr "jsval list"
  | JObj "(string \<times> jsval) list"

section \<open>Errors\<close>

text \<open>
  What a \<^verbatim>\<open>try\<close> block of a handler can catch: a run-time \<^verbatim>\<open>TypeError\<close>, an error
  thrown by \<^verbatim>\<open>helpers.httpRequest\<close> (with the \<^verbatim>\<open>response\<close> it may carry, \<open>JUndefined\<close>
  when it has none), an error thrown by the \<^verbatim>\<open>secp256k1\<close> library, and the
  \<^verbatim>\<open>NodeOperationError\<close> of an unknown operation. Each has a \<^verbatim>\<open>message\<close>.
\<close>

datatype error =
    TypeError string
  | HttpRequestError string jsval
  | Secp256k1Error string
  | NodeOperationError string

fun message :: "error \<Rightarrow> string" where
  "message (TypeError m) = m"
| "message (HttpRequestError m r) = m"
| "message (Secp256k1Error m) = m"
| "message (NodeOperationError m) = m"

section \<open>The per-item loop of the resource handlers\<close>

text \<open>
  Every handler has the same skeleton:
  \<^verbatim>\<open>
  for (let i = 0; i < items.length; i++) {
    try {
      let result: any;
      switch (operation) { ... }
      returnData.push({ json: result, pairedItem: { item: i } });
    } catch (error: any) {
      if (this.continueOnFail()) {
        returnData.push({ json: { error: error.message }, pairedItem: { item: i } });
      } else {
        throw error;
      }
    }
  }
  return returnData;
  \<close>
  The handlers differ in the \<^verbatim>\<open>switch\<close> and in what the \<^verbatim>\<open>else\<close> branch throws:
  the SNIP-20, SNIP-721 and IBC handlers rethrow the caught error, the smart-contract
  and account handlers throw \<^verbatim>\<open>new NodeApiError(this.getNode(), error)\<close>, and the
  transaction handler throws a \<^verbatim>\<open>NodeApiError\<close> built from \<^verbatim>\<open>error.response.body\<close> when
  there is one and a \<^verbatim>\<open>NodeOperationError\<close> with the caught message otherwise.
\<close>

record INodeExecutionData =
  json :: jsval
  pairedItem :: nat

datatype resource =
  SmartContracts | Snip20Tokens | Snip721Tokens | IbcOperations | Transactions | Accounts

datatype handler_error =
    Rethrown error
  | NodeApiError error
  | NodeApiErrorOfBody jsval jsval
  | NodeOperationErrorOfMessage string

fun truthy :: "jsval \<Rightarrow> bool" where
  "truthy JUndefined = False"
| "truthy JNull = False"
| "truthy (JBool b) = b"
| "truthy (JNum NaN) = False"
| "truthy (JNum (Fin x)) = (x \<noteq> 0)"
| "truthy (JNum _) = True"
| "truthy (JStr s) = (s \<noteq> [])"
| "truthy (JArr _) = True"
| "truthy (JObj _) = True"

text \<open>
  Reading a property whose name is not a built-in one (\<^verbatim>\<open>v.account\<close>, \<^verbatim>\<open>v.balances\<close>, ...):
  a \<^verbatim>\<open>TypeError\<close> on \<^verbatim>\<open>undefined\<close> and \<^verbatim>\<open>null\<close>, the property's value on an object
  that has it, \<^verbatim>\<open>undefined\<close> otherwise.
\<close>

fun js_get :: "jsval \<Rightarrow> string \<Rightarrow> error + jsval" where
  "js_get JUndefined k =
     Inl (TypeError (''Cannot read properties of undefined (reading '' @ [CHR 0x27] @ k @ [CHR 0x27] @ '')''))"
| "js_get JNull k =
     Inl (TypeError (''Cannot read properties of null (reading '' @ [CHR 0x27] @ k @ [CHR 0x27] @ '')''))"
| "js_get (JObj kvs) k = Inr (case map_of kvs k of None \<Rightarrow> JUndefined | Some v \<Rightarrow> v)"
| "js_get _ k = Inr JUndefined"

text \<open>\<^verbatim>\<open>error.response?.body\<close> and \<^verbatim>\<open>error.response.statusCode\<close> of a caught error.\<close>

fun response_of :: "error \<Rightarrow> jsval" where
  "response_of (HttpRequestError m r) = r"
| "response_of _ = JUndefined"

definition optional_get :: "jsval \<Rightarrow> string \<Rightarrow> jsval" where
  "optional_get v k = (case js_get v k of Inl _ \<Rightarrow> JUndefined | Inr x \<Rightarrow> x)"

fun rethrow :: "resource \<Rightarrow> error \<Rightarrow> handler_error" where
  "rethrow Snip20Tokens e = Rethrown e"
| "rethrow Snip721Tokens e = Rethrown e"
| "rethrow IbcOperations e = Rethrown e"
| "rethrow SmartContracts e = NodeApiError e"
| "rethrow Accounts e = NodeApiError e"
| "rethrow Transactions e =
     (if truthy (optional_get (response_of e) ''body'')
      then NodeApiErrorOfBody (optional_get (response_of e) ''body'')
             (optional_get (response_of e) ''statusCode'')
      else NodeOperationErrorOfMessage (message e))"

text \<open>
  The loop from index \<open>i\<close> on. \<open>switch_operation i w\<close> is the \<^verbatim>\<open>switch\<close> run for item
  \<open>i\<close> in the state \<open>w\<close> of the outside world (the network behind
  \<^verbatim>\<open>helpers.httpRequest\<close>): it yields the \<^verbatim>\<open>result\<close> or the error thrown, and the new
  state.
\<close>

function for_items ::
  "resource \<Rightarrow> bool \<Rightarrow> (nat \<Rightarrow> 'w \<Rightarrow> (error + jsval) \<times> 'w) \<Rightarrow> 'i list
     \<Rightarrow> nat \<Rightarrow> INodeExecutionData list \<Rightarrow> 'w \<Rightarrow> (handler_error + INodeExecutionData list) \<times> 'w"
where
  "for_items res continueOnFail switch_operation items i returnData w =
     (if i < length items then
        (case switch_operation i w of
           (Inr result, w') \<Rightarrow>
             for_items res continueOnFail switch_operation items (i + 1)
               (returnData @ [\<lparr>json = result, pairedItem = i\<rparr>]) w'
         | (Inl e, w') \<Rightarrow>
             if continueOnFail then
               for_items res continueOnFail switch_operation items (i + 1)
                 (returnData @ [\<lparr>json = JObj [(''error'', JStr (message e))], pairedItem = i\<rparr>]) w'
             else (Inl (rethrow res e), w'))
      else (Inr returnData, w))"
  by pat_completeness auto
termination
  by (relation "measure (\<lambda>(res, c, sw, items, i, rd, w). length items - i)") auto

declare for_items.simps [simp del]

definition execute_items ::
  "resource \<Rightarrow> bool \<Rightarrow> (nat \<Rightarrow> 'w \<Rightarrow> (error + jsval) \<times> 'w) \<Rightarrow> 'i list
     \<Rightarrow> 'w \<Rightarrow> (handler_error + INodeExecutionData list) \<times> 'w" where
  "execute_items res continueOnFail switch_operation items w =
     for_items res continueOnFail switch_operation items 0 [] w"

text \<open>
  The state of the world before item \<open>k\<close> is processed, when every earlier item has been
  processed, and the outcome of item \<open>k\<close> there. They describe the run; the loop does
  not use them.
\<close>

fun world_before :: "(nat \<Rightarrow> 'w \<Rightarrow> (error + jsval) \<times> 'w) \<Rightarrow> 'w \<Rightarrow> nat \<Rightarrow> 'w" where
  "world_before sw w 0 = w"
| "world_before sw w (Suc k) = snd (sw k (world_before sw w k))"

definition outcome :: "(nat \<Rightarrow> 'w \<Rightarrow> (error + jsval) \<times> 'w) \<Rightarrow> 'w \<Rightarrow> nat \<Rightarrow> error + jsval" where
  "outcome sw w k = fst (sw k (world_before sw w k))"

definition entry_of :: "nat \<Rightarrow> error + jsval \<Rightarrow> INodeExecutionData" where
  "entry_of i r =
     (case r of
        Inr result \<Rightarrow> \<lparr>json = result, pairedItem = i\<rparr>
      | Inl e \<Rightarrow> \<lparr>json = JObj [(''error'', JStr (message e))], pairedItem = i\<rparr>)"

section \<open>HTTP requests\<close>

text \<open>
  The options object passed to \<^verbatim>\<open>helpers.httpRequest\<close>; \<open>body\<close> is \<open>JUndefined\<close> when the
  request has none, \<open>http_method\<close> is its \<^verbatim>\<open>method\<close>, \<open>parse_json\<close> the \<^verbatim>\<open>json: true\<close> flag.
  The helper itself belongs to the host platform: it is a parameter \<open>httpRequest\<close> that
  maps the options and the state of the world to the parsed response, or the error it
  throws, and the new state.
\<close>

record http_options =
  http_method :: string
  url :: string
  headers :: "(string \<times> string) list"
  body :: jsval
  parse_json :: bool

text \<open>The credentials object: the fields the modelled code reads.\<close>

record credentials =
  baseUrl :: string
  chainId :: jsval

type_synonym 'w http = "http_options \<Rightarrow> 'w \<Rightarrow> (error + jsval) \<times> 'w"

section \<open>The \<^verbatim>\<open>getBalance\<close> operation of the accounts handler\<close>

text \<open>
  \<^verbatim>\<open>arr.filter(f)\<close> where \<open>f\<close> may throw: the elements are visited in order and the first
  throw ends the call.
\<close>

fun filter_throwing :: "('a \<Rightarrow> error + bool) \<Rightarrow> 'a list \<Rightarrow> error + 'a list" where
  "filter_throwing f [] = Inr []"
| "filter_throwing f (x # xs) =
     (case f x of
        Inl e \<Rightarrow> Inl e
      | Inr keep \<Rightarrow>
          (case filter_throwing f xs of
             Inl e \<Rightarrow> Inl e
           | Inr ys \<Rightarrow> Inr (if keep then x # ys else ys)))"

text \<open>\<^verbatim>\<open>(balance: any) => balance.denom === denom\<close>, with \<open>denom\<close> a string.\<close>

definition denom_equals :: "string \<Rightarrow> jsval \<Rightarrow> error + bool" where
  "denom_equals denom balance =
     (case js_get balance ''denom'' of
        Inl e \<Rightarrow> Inl e
      | Inr d \<Rightarrow> Inr (d = JStr denom))"

text \<open>
  \<^verbatim>\<open>v.filter(f)\<close> on a value \<open>v\<close> that is truthy: it exists on arrays only (a parsed
  JSON object can hold no function, whatever its keys).
\<close>

fun js_filter :: "jsval \<Rightarrow> (jsval \<Rightarrow> error + bool) \<Rightarrow> error + jsval" where
  "js_filter (JArr xs) f =
     (case filter_throwing f xs of Inl e \<Rightarrow> Inl e | Inr ys \<Rightarrow> Inr (JArr ys))"
| "js_filter _ f = Inl (TypeError ''result.balances.filter is not a function'')"

text \<open>
  \<^verbatim>\<open>obj.k = v\<close>: an existing property keeps its place, a new one is added last; on a
  primitive the assignment has no effect (the code reaches it on objects only).
\<close>

fun set_prop :: "(string \<times> jsval) list \<Rightarrow> string \<Rightarrow> jsval \<Rightarrow> (string \<times> jsval) list" where
  "set_prop [] k v = [(k, v)]"
| "set_prop ((k', v') # kvs) k v =
     (if k' = k then (k, v) # kvs else (k', v') # set_prop kvs k v)"

fun js_set :: "jsval \<Rightarrow> string \<Rightarrow> jsval \<Rightarrow> jsval" where
  "js_set (JObj kvs) k v = JObj (set_prop kvs k v)"
| "js_set x k v = x"

text \<open>
  \<^verbatim>\<open>
  case 'getBalance': {
    const address = this.getNodeParameter('address', i) as string;
    const denom = this.getNodeParameter('denom', i, '') as string;
    let url = `${credentials.baseUrl}/cosmos/bank/v1beta1/balances/${address}`;
    if (denom) {
      url += `?pagination.key=&pagination.offset=0&pagination.limit=100&pagination.count_total=true&pagination.reverse=false`;
    }
    const options: any = { method: 'GET', url, headers: { 'Content-Type': 'application/json' }, json: true };
    result = await this.helpers.httpRequest(options) as any;
    // Filter by denomination if specified
    if (denom && result.balances) {
      result.balances = result.balances.filter((balance: any) => balance.denom === denom);
    }
    break;
  }
  \<close>
\<close>

definition getBalance_options :: "credentials \<Rightarrow> string \<Rightarrow> string \<Rightarrow> http_options" where
  "getBalance_options cred address denom =
     (let url = baseUrl cred @ ''/cosmos/bank/v1beta1/balances/'' @ address;
          url = (if denom \<noteq> [] then
                   url @ ''?pagination.key=&pagination.offset=0&pagination.limit=100&pagination.count_total=true&pagination.reverse=false''
                 else url)
      in \<lparr>http_method = ''GET'', url = url, headers = [(''Content-Type'', ''application/json'')],
          body = JUndefined, parse_json = True\<rparr>)"

definition getBalance :: "'w http \<Rightarrow> credentials \<Rightarrow> string \<Rightarrow> string \<Rightarrow> 'w \<Rightarrow> (error + jsval) \<times> 'w" where
  "getBalance httpRequest cred address denom w =
     (case httpRequest (getBalance_options cred address denom) w of
        (Inl e, w') \<Rightarrow> (Inl e, w')
      | (Inr result, w') \<Rightarrow>
          if denom \<noteq> [] then
            (case js_get result ''balances'' of
               Inl e \<Rightarrow> (Inl e, w')
             | Inr balances \<Rightarrow>
                 if truthy balances then
                   (case js_filter balances (denom_equals denom) of
                      Inl e \<Rightarrow> (Inl e, w')
                    | Inr filtered \<Rightarrow> (Inr (js_set result ''balances'' filtered), w'))
                 else (Inr result, w'))
          else (Inr result, w'))"

text \<open>
  An entry of the balances array whose \<^verbatim>\<open>denom\<close> is the string \<open>denom\<close>. An entry is a
  parsed JSON value other than \<^verbatim>\<open>null\<close> (reading \<^verbatim>\<open>.denom\<close> of \<^verbatim>\<open>null\<close> throws).
\<close>

definition has_denom :: "string \<Rightarrow> jsval \<Rightarrow> bool" where
  "has_denom denom balance =
     (case balance of JObj kvs \<Rightarrow> map_of kvs ''denom'' = Some (JStr denom) | _ \<Rightarrow> False)"

definition is_entry :: "jsval \<Rightarrow> bool" where
  "is_entry b = (b \<noteq> JNull \<and> b \<noteq> JUndefined)"

section \<open>More encodings of byte buffers\<close>

text \<open>\<^verbatim>\<open>Buffer.from(s)\<close> on a string: its UTF-8 bytes.\<close>

definition utf8 :: "string \<Rightarrow> bytes" where
  "utf8 s = map (\<lambda>c. word_of_nat (of_char c)) s"

fun hexval :: "char \<Rightarrow> nat option" where
  "hexval c =
     (let n = (of_char c :: nat) in
      if 48 \<le> n \<and> n \<le> 57 then Some (n - 48)
      else if 97 \<le> n \<and> n \<le> 102 then Some (n - 87)
      else if 65 \<le> n \<and> n \<le> 70 then Some (n - 55)
      else None)"

text \<open>
  \<^verbatim>\<open>Buffer.from(s, 'hex')\<close>: one byte per pair of hexadecimal digits; decoding stops at the
  first pair that is not one, and a trailing single character is dropped.
\<close>

fun from_hex :: "string \<Rightarrow> bytes" where
  "from_hex (a # b # rest) =
     (case (hexval a, hexval b) of
        (Some x, Some y) \<Rightarrow> word_of_nat (16 * x + y) # from_hex rest
      | _ \<Rightarrow> [])"
| "from_hex _ = []"

definition base64_char :: "nat \<Rightarrow> char" where
  "base64_char n =
     ''ABCDEFGHIJKLMNOPQRSTUVWXYZabcdefghijklmnopqrstuvwxyz0123456789+/'' ! (n mod 64)"

text \<open>\<^verbatim>\<open>buf.toString('base64')\<close>: the standard alphabet, padded with \<open>=\<close>.\<close>

fun toString_base64 :: "bytes \<Rightarrow> string" where
  "toString_base64 [] = []"
| "toString_base64 [a] =
     [base64_char (unat a div 4), base64_char ((unat a mod 4) * 16), CHR ''='', CHR ''='']"
| "toString_base64 [a, b] =
     [base64_char (unat a div 4), base64_char ((unat a mod 4) * 16 + unat b div 16),
      base64_char ((unat b mod 16) * 4), CHR ''='']"
| "toString_base64 (a # b # c # rest) =
     [base64_char (unat a div 4), base64_char ((unat a mod 4) * 16 + unat b div 16),
      base64_char ((unat b mod 16) * 4 + unat c div 64), base64_char (unat c mod 64)]
     @ toString_base64 rest"

section \<open>Numbers\<close>

definition pow2 :: "int \<Rightarrow> rat" where
  "pow2 k = (if 0 \<le> k then 2 ^ nat k else 1 / 2 ^ nat (- k))"

definition pow10 :: "int \<Rightarrow> rat" where
  "pow10 k = (if 0 \<le> k then 10 ^ nat k else 1 / 10 ^ nat (- k))"

text \<open>\<open>ilog2 a\<close> and \<open>ilog10 a\<close>: the integer \<open>d\<close> with \<open>b^d \<le> a < b^(d+1)\<close>, for \<open>a > 0\<close>.\<close>

definition ilog2 :: "rat \<Rightarrow> int" where
  "ilog2 a =
     (let (p, q) = quotient_of a;
          d = int (floorlog 2 (nat p)) - int (floorlog 2 (nat q))
      in if pow2 d \<le> a then d else d - 1)"

definition ilog10 :: "rat \<Rightarrow> int" where
  "ilog10 a =
     (let (p, q) = quotient_of a;
          d = int (floorlog 10 (nat p)) - int (floorlog 10 (nat q))
      in if pow10 d \<le> a then d else d - 1)"

definition round_half_even :: "rat \<Rightarrow> int" where
  "round_half_even x =
     (let n = \<lfloor>x\<rfloor>; f = x - of_int n
      in if f < 1 / 2 then n else if 1 / 2 < f then n + 1 else if even n then n else n + 1)"

text \<open>
  The binary64 value nearest to a rational, ties to even: 53 significant bits, exponents
  down to \<open>-1022\<close> (below that the spacing stays \<open>2^-1074\<close>), infinite from \<open>2^1024\<close> on.
\<close>

definition to_double :: "rat \<Rightarrow> jsnum" where
  "to_double x =
     (if x = 0 then Fin 0
      else
        let a = \<bar>x\<bar>;
            e = max (ilog2 a) (- 1022);
            ulp = pow2 (e - 52);
            r = of_int (round_half_even (a / ulp)) * ulp
        in if pow2 1024 \<le> r then (if x < 0 then NegInf else PosInf)
           else Fin (if x < 0 then - r else r))"

fun js_mul :: "jsnum \<Rightarrow> jsnum \<Rightarrow> jsnum" where
  "js_mul (Fin x) (Fin y) = to_double (x * y)"
| "js_mul NaN _ = NaN"
| "js_mul _ NaN = NaN"
| "js_mul (Fin x) PosInf = (if x = 0 then NaN else if x < 0 then NegInf else PosInf)"
| "js_mul (Fin x) NegInf = (if x = 0 then NaN else if x < 0 then PosInf else NegInf)"
| "js_mul PosInf (Fin y) = (if y = 0 then NaN else if y < 0 then NegInf else PosInf)"
| "js_mul NegInf (Fin y) = (if y = 0 then NaN else if y < 0 then PosInf else NegInf)"
| "js_mul PosInf PosInf = PosInf"
| "js_mul NegInf NegInf = PosInf"
| "js_mul PosInf NegInf = NegInf"
| "js_mul NegInf PosInf = NegInf"


fun Math_ceil :: "jsnum \<Rightarrow> jsnum" where
  "Math_ceil (Fin x) = Fin (of_int \<lceil>x\<rceil>)"
| "Math_ceil n = n"

text \<open>The decimal digits of a natural number.\<close>

function digits :: "nat \<Rightarrow> string" where
  "digits n = (if n < 10 then [char_of (48 + n)] else digits (n div 10) @ [char_of (48 + n mod 10)])"
  by pat_completeness auto
termination
  by (relation "measure id") auto

declare digits.simps [simp del]

text \<open>
  \<^verbatim>\<open>Number.prototype.toString()\<close> of a positive finite \<open>m\<close>: integers \<open>n\<close>, \<open>k \<ge> 1\<close> and
  \<open>s\<close> with \<open>10^(k-1) \<le> s < 10^k\<close> such that \<open>s * 10^(n-k)\<close> has \<open>m\<close> as its number value
  and \<open>k\<close> is as small as possible; of several \<open>s\<close> the one nearest to \<open>m\<close>, of two equally
  near the even one. For each \<open>k\<close> the two multiples of \<open>10^(n-k)\<close> around \<open>m\<close> are the
  only candidates; 17 digits always suffice for a binary64 value.
\<close>

definition candidate :: "rat \<Rightarrow> int \<Rightarrow> nat \<Rightarrow> int option" where
  "candidate m n0 k =
     (let sc = pow10 (n0 - int k);
          lo = \<lfloor>m / sc\<rfloor>;
          hi = lo + 1;
          lo_ok = (to_double (of_int lo * sc) = Fin m);
          hi_ok = (to_double (of_int hi * sc) = Fin m);
          dlo = m - of_int lo * sc;
          dhi = of_int hi * sc - m
      in if lo_ok \<and> hi_ok then
           (if dlo < dhi then Some lo else if dhi < dlo then Some hi
            else if even lo then Some lo else Some hi)
         else if lo_ok then Some lo
         else if hi_ok then Some hi
         else None)"

fun find_digits :: "rat \<Rightarrow> int \<Rightarrow> nat \<Rightarrow> nat \<Rightarrow> int \<times> nat" where
  "find_digits m n0 k 0 = (\<lfloor>m / pow10 (n0 - int k)\<rfloor>, k)"
| "find_digits m n0 k (Suc fuel) =
     (case candidate m n0 k of
        Some s \<Rightarrow> (s, k)
      | None \<Rightarrow> find_digits m n0 (Suc k) fuel)"

definition positive_toString :: "rat \<Rightarrow> string" where
  "positive_toString m =
     (let n0 = ilog10 m + 1;
          (c, k) = find_digits m n0 1 17;
          (s, n) = (if c = 10 ^ k then (10 ^ (k - 1), n0 + 1) else (c, n0));
          ds = digits (nat s)
      in if int k \<le> n \<and> n \<le> 21 then ds @ replicate (nat (n - int k)) (CHR ''0'')
         else if 0 < n \<and> n \<le> 21 then take (nat n) ds @ ''.'' @ drop (nat n) ds
         else if - 6 < n \<and> n \<le> 0 then ''0.'' @ replicate (nat (- n)) (CHR ''0'') @ ds
         else
           (let e = n - 1;
                es = (if e < 0 then ''-'' else ''+'') @ digits (nat \<bar>e\<bar>)
            in if k = 1 then ds @ ''e'' @ es
               else [hd ds] @ ''.'' @ tl ds @ ''e'' @ es))"

fun Number_toString :: "jsnum \<Rightarrow> string" where
  "Number_toString NaN = ''NaN''"
| "Number_toString PosInf = ''Infinity''"
| "Number_toString NegInf = ''-Infinity''"
| "Number_toString (Fin x) =
     (if x = 0 then ''0''
      else if x < 0 then ''-'' @ positive_toString (- x)
      else positive_toString x)"

text \<open>
  \<^verbatim>\<open>parseFloat(s)\<close>: leading white space is skipped, then the longest prefix that is a
  decimal literal (sign, digits, fraction, exponent) or a signed \<^verbatim>\<open>Infinity\<close> is read and
  rounded to the nearest number; \<^verbatim>\<open>NaN\<close> when there is none.

  White space is the characters U+0009 to U+000D, U+0020, U+00A0, U+1680, U+2000 to
  U+200A, U+2028, U+2029, U+202F, U+205F, U+3000 and U+FEFF; \<open>white_space_prefix s\<close> is
  the number of bytes of the white space character that \<open>s\<close> begins with in UTF-8, or 0.
\<close>

definition white_space_prefix :: "string \<Rightarrow> nat" where
  "white_space_prefix s =
     (case map (of_char :: char \<Rightarrow> nat) (take 3 s) of
        [] \<Rightarrow> 0
      | b0 # rest \<Rightarrow>
          if b0 = 0x20 \<or> (0x09 \<le> b0 \<and> b0 \<le> 0x0D) then 1
          else if b0 = 0xC2 \<and> take 1 rest = [0xA0] then 2
          else if b0 = 0xE1 \<and> rest = [0x9A, 0x80] then 3
          else if b0 = 0xE2 \<and> take 1 rest = [0x80] \<and> length rest = 2
                  \<and> ((0x80 \<le> rest ! 1 \<and> rest ! 1 \<le> 0x8A)
                       \<or> rest ! 1 = 0xA8 \<or> rest ! 1 = 0xA9 \<or> rest ! 1 = 0xAF) then 3
          else if b0 = 0xE2 \<and> rest = [0x81, 0x9F] then 3
          else if b0 = 0xE3 \<and> rest = [0x80, 0x80] then 3
          else if b0 = 0xEF \<and> rest = [0xBB, 0xBF] then 3
          else 0)"

function skip_white_space :: "string \<Rightarrow> string" where
  "skip_white_space s =
     (if white_space_prefix s = 0 then s
      else skip_white_space (drop (white_space_prefix s) s))"
  by pat_completeness auto
termination
proof (relation "measure length")
  show "wf (measure length)" by simp
next
  fix s :: string
  assume "white_space_prefix s \<noteq> 0"
  then have "s \<noteq> []" by (auto simp: white_space_prefix_def)
  then show "(drop (white_space_prefix s) s, s) \<in> measure length"
    using \<open>white_space_prefix s \<noteq> 0\<close> by simp
qed

declare skip_white_space.simps [simp del]

definition is_digit :: "char \<Rightarrow> bool" where
  "is_digit c = (48 \<le> (of_char c :: nat) \<and> (of_char c :: nat) \<le> 57)"

fun digits_value :: "nat \<Rightarrow> string \<Rightarrow> nat" where
  "digits_value acc [] = acc"
| "digits_value acc (c # cs) = digits_value (10 * acc + (of_char c - 48)) cs"

definition starts_with :: "string \<Rightarrow> string \<Rightarrow> bool" where
  "starts_with s p = (take (length p) s = p)"

definition parse_exponent :: "string \<Rightarrow> int" where
  "parse_exponent s =
     (if s \<noteq> [] \<and> (hd s = CHR ''e'' \<or> hd s = CHR ''E'') then
        (let t = tl s;
             neg = (t \<noteq> [] \<and> hd t = CHR ''-'');
             u = (if t \<noteq> [] \<and> (hd t = CHR ''-'' \<or> hd t = CHR ''+'') then tl t else t);
             ds = takeWhile is_digit u
         in if ds = [] then 0
            else if neg then - int (digits_value 0 ds) else int (digits_value 0 ds))
      else 0)"

definition parse_unsigned :: "string \<Rightarrow> rat option" where
  "parse_unsigned s =
     (let ip = takeWhile is_digit s;
          r1 = dropWhile is_digit s;
          dot = (r1 \<noteq> [] \<and> hd r1 = CHR ''.'');
          fp = (if dot then takeWhile is_digit (tl r1) else []);
          r2 = (if dot then dropWhile is_digit (tl r1) else r1)
      in if ip = [] \<and> fp = [] then None
         else Some (of_nat (digits_value 0 (ip @ fp))
                      * pow10 (parse_exponent r2 - int (length fp))))"

definition parseFloat :: "string \<Rightarrow> jsnum" where
  "parseFloat str =
     (let s = skip_white_space str;
          neg = (s \<noteq> [] \<and> hd s = CHR ''-'');
          t = (if s \<noteq> [] \<and> (hd s = CHR ''-'' \<or> hd s = CHR ''+'') then tl s else s)
      in if starts_with t ''Infinity'' then (if neg then NegInf else PosInf)
         else (case parse_unsigned t of
                 None \<Rightarrow> NaN
               | Some q \<Rightarrow> to_double (if neg then - q else q)))"

text \<open>\<^verbatim>\<open>s.replace(pat, rep)\<close> with a string pattern: the first occurrence only.\<close>

fun replace_first :: "string \<Rightarrow> string \<Rightarrow> string \<Rightarrow> string" where
  "replace_first pat rep [] = (if pat = [] then rep else [])"
| "replace_first pat rep (c # cs) =
     (if starts_with (c # cs) pat then rep @ drop (length pat) (c # cs)
      else c # replace_first pat rep cs)"

section \<open>\<^verbatim>\<open>JSON.stringify\<close>\<close>

text \<open>
  A string is written between double quotes; the double quote, the backslash and the
  control characters below \<open>0x20\<close> are escaped, every other byte is copied.
\<close>

definition escape_char :: "char \<Rightarrow> string" where
  "escape_char c =
     (let n = (of_char c :: nat) in
      if n = 0x22 then [CHR 0x5C, CHR 0x22]
      else if n = 0x5C then [CHR 0x5C, CHR 0x5C]
      else if n = 0x08 then [CHR 0x5C, CHR ''b'']
      else if n = 0x0C then [CHR 0x5C, CHR ''f'']
      else if n = 0x0A then [CHR 0x5C, CHR ''n'']
      else if n = 0x0D then [CHR 0x5C, CHR ''r'']
      else if n = 0x09 then [CHR 0x5C, CHR ''t'']
      else if n < 0x20 then [CHR 0x5C, CHR ''u'', CHR ''0'', CHR ''0'', hexdigit (n div 16), hexdigit (n mod 16)]
      else [c])"

definition quote :: "string \<Rightarrow> string" where
  "quote s = [CHR 0x22] @ concat (map escape_char s) @ [CHR 0x22]"

fun join_comma :: "string list \<Rightarrow> string" where
  "join_comma [] = []"
| "join_comma [x] = x"
| "join_comma (x # y # zs) = x @ '','' @ join_comma (y # zs)"

text \<open>A property whose value serialises to \<^verbatim>\<open>undefined\<close> is left out of an object.\<close>

fun members :: "(string \<times> string option) list \<Rightarrow> string list" where
  "members [] = []"
| "members ((k, None) # kvs) = members kvs"
| "members ((k, Some t) # kvs) = (quote k @ '':'' @ t) # members kvs"

text \<open>In an array \<^verbatim>\<open>undefined\<close> is written \<^verbatim>\<open>null\<close>.\<close>

definition element :: "string option \<Rightarrow> string" where
  "element r = (case r of None \<Rightarrow> ''null'' | Some t \<Rightarrow> t)"

text \<open>
  \<^verbatim>\<open>JSON.stringify(v)\<close>; \<open>None\<close> is the result \<^verbatim>\<open>undefined\<close>. The properties of an object
  are written in their enumeration order.
\<close>

primrec JSON_stringify :: "jsval \<Rightarrow> string option" where
  "JSON_stringify JUndefined = None"
| "JSON_stringify JNull = Some ''null''"
| "JSON_stringify (JBool b) = Some (if b then ''true'' else ''false'')"
| "JSON_stringify (JNum n) = Some (case n of Fin x \<Rightarrow> Number_toString n | _ \<Rightarrow> ''null'')"
| "JSON_stringify (JStr s) = Some (quote s)"
| "JSON_stringify (JArr xs) =
     Some (''['' @ join_comma (map element (map JSON_stringify xs)) @ '']'')"
| "JSON_stringify (JObj kvs) =
     Some (''{'' @ join_comma (members (map (map_prod id JSON_stringify) kvs)) @ ''}'')"

text \<open>
  \<^verbatim>\<open>Buffer.from(JSON.stringify(v))\<close>; \<^verbatim>\<open>Buffer.from(undefined)\<close> throws a \<^verbatim>\<open>TypeError\<close>.
\<close>

definition Buffer_from_JSON :: "jsval \<Rightarrow> error + bytes" where
  "Buffer_from_JSON v =
     (case JSON_stringify v of
        None \<Rightarrow> Inl (TypeError ''The first argument must be of type string or an instance of Buffer, ArrayBuffer, or Array or an Array-like Object. Received undefined'')
      | Some s \<Rightarrow> Inr (utf8 s))"

text \<open>\<^verbatim>\<open>a || b\<close>.\<close>

definition js_or :: "jsval \<Rightarrow> jsval \<Rightarrow> jsval" where
  "js_or a b = (if truthy a then a else b)"

section \<open>Signing and broadcasting\<close>

text \<open>
  The \<^verbatim>\<open>secp256k1\<close> library and the digests of \<^verbatim>\<open>crypto\<close> are parameters.
  \<open>publicKeyCreate\<close> and \<open>ecdsaSign\<close> throw on a malformed key; \<open>ecdsaSign hash key\<close>
  yields the \<^verbatim>\<open>signature\<close> bytes of the object the library returns.
\<close>

record crypto =
  publicKeyCreate :: "bytes \<Rightarrow> error + bytes"
  ecdsaSign :: "bytes \<Rightarrow> bytes \<Rightarrow> error + bytes"
  sha256 :: "bytes \<Rightarrow> bytes"
  ripemd160 :: "bytes \<Rightarrow> bytes"

text \<open>
  \<^verbatim>\<open>
  const accountResponse = await executeFunctions.helpers.httpRequest(accountOptions) as any;
  const sequence = accountResponse.account.sequence || '0';
  const accountNumber = accountResponse.account.account_number || '0';
  \<close>
\<close>

definition accountOptions :: "credentials \<Rightarrow> string \<Rightarrow> http_options" where
  "accountOptions cred address =
     \<lparr>http_method = ''GET'',
      url = baseUrl cred @ ''/cosmos/auth/v1beta1/accounts/'' @ address,
      headers = [(''Content-Type'', ''application/json'')],
      body = JUndefined, parse_json = True\<rparr>"

definition account_identity :: "jsval \<Rightarrow> error + (jsval \<times> jsval)" where
  "account_identity accountResponse =
     (case js_get accountResponse ''account'' of
        Inl e \<Rightarrow> Inl e
      | Inr account \<Rightarrow>
          (case js_get account ''sequence'' of
             Inl e \<Rightarrow> Inl e
           | Inr s \<Rightarrow>
               (case js_get account ''account_number'' of
                  Inl e \<Rightarrow> Inl e
                | Inr n \<Rightarrow> Inr (js_or s (JStr ''0''), js_or n (JStr ''0'')))))"

text \<open>
  \<^verbatim>\<open>Math.ceil(gasLimit * parseFloat(gasPrice.replace('uscrt', ''))).toString()\<close>
\<close>

definition fee_amount :: "jsnum \<Rightarrow> string \<Rightarrow> string" where
  "fee_amount gasLimit gasPrice =
     Number_toString (Math_ceil (js_mul gasLimit (parseFloat (replace_first ''uscrt'' [] gasPrice))))"

definition txBody_of :: "string \<Rightarrow> string \<Rightarrow> bytes \<Rightarrow> jsval" where
  "txBody_of address contractAddress msg =
     JObj [(''messages'',
            JArr [JObj [(''@type'', JStr ''/secret.compute.v1beta1.MsgExecuteContract''),
                        (''sender'', JStr address),
                        (''contract'', JStr contractAddress),
                        (''msg'', JStr (toString_base64 msg)),
                        (''sent_funds'', JArr [])]]),
           (''memo'', JStr []),
           (''timeout_height'', JStr ''0''),
           (''extension_options'', JArr []),
           (''non_critical_extension_options'', JArr [])]"

definition fee_of :: "jsnum \<Rightarrow> string \<Rightarrow> jsval" where
  "fee_of gasLimit gasPrice =
     JObj [(''amount'', JArr [JObj [(''denom'', JStr ''uscrt''),
                                    (''amount'', JStr (fee_amount gasLimit gasPrice))]]),
           (''gas_limit'', JStr (Number_toString gasLimit)),
           (''payer'', JStr []),
           (''granter'', JStr [])]"

definition authInfo_of :: "bytes \<Rightarrow> jsval \<Rightarrow> jsnum \<Rightarrow> string \<Rightarrow> jsval" where
  "authInfo_of pubKey sequence gasLimit gasPrice =
     JObj [(''signer_infos'',
            JArr [JObj [(''public_key'',
                         JObj [(''@type'', JStr ''/cosmos.crypto.secp256k1.PubKey''),
                               (''key'', JStr (toString_base64 pubKey))]),
                        (''mode_info'', JObj [(''single'', JObj [(''mode'', JStr ''SIGN_MODE_DIRECT'')])]),
                        (''sequence'', sequence)]]),
           (''fee'', fee_of gasLimit gasPrice)]"

text \<open>
  \<^verbatim>\<open>
  const txRaw = {
    body_bytes: Buffer.from(JSON.stringify(txBody)).toString('base64'),
    auth_info_bytes: Buffer.from(JSON.stringify(authInfo)).toString('base64'),
    signatures: [''],
  };
  \<close>
  The two encoded fields are computed once (\<open>txRaw_of\<close>); \<open>txRaw_object\<close> is the object
  with a given \<^verbatim>\<open>signatures\<close> list.
\<close>

definition txRaw_of :: "jsval \<Rightarrow> jsval \<Rightarrow> error + (string \<times> string)" where
  "txRaw_of txBody authInfo =
     (case Buffer_from_JSON txBody of
        Inl e \<Rightarrow> Inl e
      | Inr bb \<Rightarrow>
          (case Buffer_from_JSON authInfo of
             Inl e \<Rightarrow> Inl e
           | Inr ab \<Rightarrow> Inr (toString_base64 bb, toString_base64 ab)))"

definition txRaw_object :: "string \<times> string \<Rightarrow> string list \<Rightarrow> jsval" where
  "txRaw_object bytes_pair signatures =
     JObj [(''body_bytes'', JStr (fst bytes_pair)),
           (''auth_info_bytes'', JStr (snd bytes_pair)),
           (''signatures'', JArr (map JStr signatures))]"

text \<open>
  \<^verbatim>\<open>
  const signDoc = {
    body_bytes: txRaw.body_bytes,
    auth_info_bytes: txRaw.auth_info_bytes,
    chain_id: credentials.chainId || 'secret-4',
    account_number: accountNumber,
  };
  const signBytes = Buffer.from(JSON.stringify(signDoc));
  \<close>
\<close>

definition signDoc_of :: "string \<times> string \<Rightarrow> jsval \<Rightarrow> jsval \<Rightarrow> jsval" where
  "signDoc_of bytes_pair chain accountNumber =
     JObj [(''body_bytes'', JStr (fst bytes_pair)),
           (''auth_info_bytes'', JStr (snd bytes_pair)),
           (''chain_id'', js_or chain (JStr ''secret-4'')),
           (''account_number'', accountNumber)]"

definition signBytes_of :: "jsval \<Rightarrow> jsval \<Rightarrow> jsval \<Rightarrow> jsval \<Rightarrow> error + bytes" where
  "signBytes_of txBody authInfo chain accountNumber =
     (case txRaw_of txBody authInfo of
        Inl e \<Rightarrow> Inl e
      | Inr bytes_pair \<Rightarrow> Buffer_from_JSON (signDoc_of bytes_pair chain accountNumber))"

text \<open>
  From the account response to the signed \<^verbatim>\<open>txRaw\<close>: the part of
  \<^verbatim>\<open>signAndBroadcastTx\<close> between its two requests. The result is the pair of encoded
  body and auth info with the final list \<^verbatim>\<open>txRaw.signatures\<close>.
\<close>

definition sign_tx ::
  "crypto \<Rightarrow> credentials \<Rightarrow> string \<Rightarrow> jsval \<Rightarrow> bytes \<Rightarrow> bytes \<Rightarrow> string \<Rightarrow> jsval \<Rightarrow> jsnum \<Rightarrow> string
     \<Rightarrow> error + ((string \<times> string) \<times> string list)" where
  "sign_tx lib cred contractAddress executeMsg privKeyBuffer pubKey address accountResponse gasLimit gasPrice =
     (case account_identity accountResponse of
        Inl e \<Rightarrow> Inl e
      | Inr (sequence, accountNumber) \<Rightarrow>
          (case Buffer_from_JSON executeMsg of
             Inl e \<Rightarrow> Inl e
           | Inr msg \<Rightarrow>
               (let txBody = txBody_of address contractAddress msg;
                    authInfo = authInfo_of pubKey sequence gasLimit gasPrice
                in case txRaw_of txBody authInfo of
                     Inl e \<Rightarrow> Inl e
                   | Inr bytes_pair \<Rightarrow>
                       (case signBytes_of txBody authInfo (chainId cred) accountNumber of
                          Inl e \<Rightarrow> Inl e
                        | Inr signBytes \<Rightarrow>
                            (let hash = sha256 lib signBytes
                             in case ecdsaSign lib hash privKeyBuffer of
                                  Inl e \<Rightarrow> Inl e
                                | Inr signature \<Rightarrow>
                                    Inr (bytes_pair, [toString_base64 signature]))))))"

definition broadcastOptions :: "credentials \<Rightarrow> bytes \<Rightarrow> http_options" where
  "broadcastOptions cred tx =
     \<lparr>http_method = ''POST'',
      url = baseUrl cred @ ''/cosmos/tx/v1beta1/txs'',
      headers = [(''Content-Type'', ''application/json'')],
      body = JObj [(''tx_bytes'', JStr (toString_base64 tx)),
                   (''mode'', JStr ''BROADCAST_MODE_SYNC'')],
      parse_json = True\<rparr>"

definition signAndBroadcastTx ::
  "crypto \<Rightarrow> 'w http \<Rightarrow> credentials \<Rightarrow> string \<Rightarrow> jsval \<Rightarrow> string \<Rightarrow> jsnum \<Rightarrow> string
     \<Rightarrow> 'w \<Rightarrow> (error + jsval) \<times> 'w" where
  "signAndBroadcastTx lib httpRequest cred contractAddress executeMsg privateKey gasLimit gasPrice w =
     (let privKeyBuffer = from_hex privateKey
      in case publicKeyCreate lib privKeyBuffer of
           Inl e \<Rightarrow> (Inl e, w)
         | Inr pubKey \<Rightarrow>
             (let address = getAddressFromPubKey (sha256 lib) (ripemd160 lib) pubKey
              in case httpRequest (accountOptions cred address) w of
                   (Inl e, w1) \<Rightarrow> (Inl e, w1)
                 | (Inr accountResponse, w1) \<Rightarrow>
                     (case sign_tx lib cred contractAddress executeMsg privKeyBuffer pubKey address
                             accountResponse gasLimit gasPrice of
                        Inl e \<Rightarrow> (Inl e, w1)
                      | Inr (bytes_pair, signatures) \<Rightarrow>
                          (case Buffer_from_JSON (txRaw_object bytes_pair signatures) of
                             Inl e \<Rightarrow> (Inl e, w1)
                           | Inr tx \<Rightarrow> httpRequest (broadcastOptions cred tx) w1))))"

section \<open>The \<^verbatim>\<open>ibcTransfer\<close> operation of the IBC handler\<close>

text \<open>
  \<^verbatim>\<open>
  case 'ibcTransfer': {
    const sourcePort = this.getNodeParameter('sourcePort', i) as string;
    const sourceChannel = this.getNodeParameter('sourceChannel', i) as string;
    const token = this.getNodeParameter('token', i) as any;
    const sender = this.getNodeParameter('sender', i) as string;
    const receiver = this.getNodeParameter('receiver', i) as string;
    const timeoutHeight = this.getNodeParameter('timeoutHeight', i) as number;
    const privateKey = this.getNodeParameter('privateKey', i) as string;
    const gasLimit = this.getNodeParameter('gasLimit', i) as number;
    const gasPrice = this.getNodeParameter('gasPrice', i) as string;
    const txBody = {
      messages: [
        {
          '@type': '/ibc.applications.transfer.v1.MsgTransfer',
          source_port: sourcePort,
          source_channel: sourceChannel,
          token: token,
          sender: sender,
          receiver: receiver,
          timeout_height: timeoutHeight > 0 ? { revision_number: '0', revision_height: timeoutHeight.toString() } : undefined,
          timeout_timestamp: timeoutHeight === 0 ? (Date.now() + 600000) * 1000000 : '0',
        },
      ],
      memo: '',
      timeout_height: '0',
      extension_options: [],
      non_critical_extension_options: [],
    };
    const authInfo = {
      signer_infos: [],
      fee: {
        amount: [{ denom: gasPrice.replace(/[0-9.]/g, ''), amount: (parseFloat(gasPrice) * gasLimit).toString() }],
        gas_limit: gasLimit.toString(),
        payer: '',
        granter: '',
      },
    };
    const options: any = {
      method: 'POST',
      url: `${credentials.baseUrl}/cosmos/tx/v1beta1/txs`,
      headers: { 'Content-Type': 'application/json' },
      body: {
        tx_bytes: Buffer.from(JSON.stringify({ body: txBody, auth_info: authInfo, signatures: [] })).toString('base64'),
        mode: 'BROADCAST_MODE_SYNC',
      },
      json: true,
    };
    result = await this.helpers.httpRequest(options) as any;
    break;
  }
  \<close>
  The parameters have the types the source casts them to, each an argument of the
  model; the private key is read and not used. \<open>now\<close> is the value of \<^verbatim>\<open>Date.now()\<close>, an
  integer number of milliseconds.
\<close>








section \<open>Recording the requests; example environments\<close>

text \<open>
  \<open>logged h\<close> behaves as the request helper \<open>h\<close> and appends the options of every call
  to a log kept beside the state of the world. It is used to speak about the requests
  a run has issued.
\<close>

definition logged :: "'w http \<Rightarrow> ('w \<times> http_options list) http" where
  "logged h opts = (\<lambda>(w, reqs). case h opts w of (r, w') \<Rightarrow> (r, (w', reqs @ [opts])))"

text \<open>
  Stand-ins for the library and the network, for the concrete runs below: a library
  that returns a 33-byte key, 32- and 20-byte digests and a 64-byte signature, and a
  network that answers every \<^verbatim>\<open>GET\<close> with \<open>account\<close> and every other request with
  \<open>broadcast\<close>.
\<close>

definition example_crypto :: crypto where
  "example_crypto =
     \<lparr>publicKeyCreate = (\<lambda>key. Inr (replicate 33 2)),
      ecdsaSign = (\<lambda>hash key. Inr (replicate 64 1)),
      sha256 = (\<lambda>bs. replicate 32 0),
      ripemd160 = (\<lambda>bs. replicate 20 0)\<rparr>"

definition example_credentials :: credentials where
  "example_credentials = \<lparr>baseUrl = ''https://lcd.secret.express'', chainId = JStr ''secret-4''\<rparr>"

definition example_http :: "jsval \<Rightarrow> jsval \<Rightarrow> unit http" where
  "example_http account broadcast opts w =
     (if http_method opts = ''GET'' then (Inr account, w) else (Inr broadcast, w))"

definition example_msg :: jsval where
  "example_msg =
     JObj [(''transfer_nft'', JObj [(''recipient'', JStr ''secret1recipient''), (''token_id'', JStr ''1'')])]"

section \<open>Properties of the address derivation\<close>

lemma length_byte_toHex: "length (byte_toHex b) = 2"
  by (simp add: byte_toHex_def)

lemma length_toString_hex: "length (toString_hex bs) = 2 * length bs"
  by (induction bs) (simp_all add: toString_hex_def length_byte_toHex)

lemma toString_hex_Cons: "toString_hex (b # bs) = byte_toHex b @ toString_hex bs"
  by (simp add: toString_hex_def)

lemma take_toString_hex: "take (2 * n) (toString_hex bs) = toString_hex (take n bs)"
proof (induction bs arbitrary: n)
  case Nil
  show ?case by (simp add: toString_hex_def)
next
  case (Cons b bs)
  show ?case
  proof (cases n)
    case 0
    then show ?thesis by (simp add: toString_hex_def)
  next
    case (Suc m)
    have "take (2 * n) (toString_hex (b # bs)) = byte_toHex b @ take (2 * m) (toString_hex bs)"
      using Suc by (simp add: toString_hex_Cons length_byte_toHex)
    also have "\<dots> = toString_hex (take n (b # bs))"
      using Suc Cons.IH [of m] by (simp add: toString_hex_Cons)
    finally show ?thesis .
  qed
qed

lemma substring_0: "substring s 0 n = take n s"
  by (simp add: substring_def Let_def min_def max_def)

lemma hexdigit_is_hexdigit: "is_hexdigit (hexdigit n)"
proof -
  have "n mod 16 < length ''0123456789abcdef''" by simp
  then have "''0123456789abcdef'' ! (n mod 16) \<in> set ''0123456789abcdef''"
    by (rule nth_mem)
  then show ?thesis
    unfolding hexdigit_def is_hexdigit_def .
qed

lemma toString_hex_digits: "\<forall>c \<in> set (toString_hex bs). is_hexdigit c"
  by (induction bs) (auto simp: toString_hex_def byte_toHex_def hexdigit_is_hexdigit)

text \<open>
  C1. The address is a function of the public key alone (the same key gives the same
  address). It is the prefix \<open>secret\<close> followed by the lower-case hexadecimal encoding of
  the second digest (RIPEMD-160 of the SHA-256 of the key) truncated to its first 20
  bytes; as RIPEMD-160 returns 20 bytes, the address always has 46 characters.
\<close>

theorem getAddressFromPubKey_fixed_length:
  assumes "length (ripemd160_digest (sha256_digest pubKey)) = 20"
  shows "getAddressFromPubKey sha256_digest ripemd160_digest pubKey
           = ''secret'' @ toString_hex (take 20 (ripemd160_digest (sha256_digest pubKey)))
       \<and> length (getAddressFromPubKey sha256_digest ripemd160_digest pubKey) = 46
       \<and> take 6 (getAddressFromPubKey sha256_digest ripemd160_digest pubKey) = ''secret''
       \<and> (\<forall>c \<in> set (drop 6 (getAddressFromPubKey sha256_digest ripemd160_digest pubKey)). is_hexdigit c)
       \<and> (\<forall>pubKey'. pubKey' = pubKey \<longrightarrow>
            getAddressFromPubKey sha256_digest ripemd160_digest pubKey'
              = getAddressFromPubKey sha256_digest ripemd160_digest pubKey)"
proof -
  let ?r = "ripemd160_digest (sha256_digest pubKey)"
  have eq: "getAddressFromPubKey sha256_digest ripemd160_digest pubKey = ''secret'' @ toString_hex (take 20 ?r)"
    using take_toString_hex [of 20 ?r]
    by (simp add: getAddressFromPubKey_def Let_def substring_0)
  have len: "length (toString_hex (take 20 ?r)) = 40"
    using assms by (simp add: length_toString_hex)
  have dig: "\<forall>c \<in> set (toString_hex (take 20 ?r)). is_hexdigit c"
    by (rule toString_hex_digits)
  show ?thesis
    using len dig by (simp add: eq)
qed

theorem getAddressFromPubKey_fixed_length_witness:
  "length (getAddressFromPubKey (\<lambda>bs. bs) (\<lambda>bs. take 20 (bs @ replicate 20 0)) [2, 255, 16]) = 46
   \<and> getAddressFromPubKey (\<lambda>bs. bs) (\<lambda>bs. take 20 (bs @ replicate 20 0)) [2, 255, 16]
       = ''secret02ff100000000000000000000000000000000000''"
proof -
  have v: "toString_hex (take 20 ([2, 255, 16] @ replicate 20 0))
             = ''02ff100000000000000000000000000000000000''"
    by code_simp
  show ?thesis
    using getAddressFromPubKey_fixed_length
            [where sha256_digest = "\<lambda>bs. bs" and ripemd160_digest = "\<lambda>bs. take 20 (bs @ replicate 20 0)"
               and pubKey = "[2, 255, 16]"] v
    by simp
qed

section \<open>Properties of the per-item loop\<close>

lemma for_items_done:
  "length items \<le> i \<Longrightarrow> for_items res c sw items i rd w = (Inr rd, w)"
  by (subst for_items.simps) simp

lemma for_items_step_ok:
  "i < length items \<Longrightarrow> sw i w = (Inr r, w') \<Longrightarrow>
   for_items res c sw items i rd w
     = for_items res c sw items (Suc i) (rd @ [entry_of i (Inr r)]) w'"
  by (subst for_items.simps) (simp add: entry_of_def)

lemma for_items_step_continue:
  "i < length items \<Longrightarrow> sw i w = (Inl e, w') \<Longrightarrow>
   for_items res True sw items i rd w
     = for_items res True sw items (Suc i) (rd @ [entry_of i (Inl e)]) w'"
  by (subst for_items.simps) (simp add: entry_of_def)

lemma for_items_step_abort:
  "i < length items \<Longrightarrow> sw i w = (Inl e, w') \<Longrightarrow>
   for_items res False sw items i rd w = (Inl (rethrow res e), w')"
  by (subst for_items.simps) simp

lemma sw_world_before:
  "sw i (world_before sw w i) = (outcome sw w i, world_before sw w (Suc i))"
  by (simp add: outcome_def)

lemma for_items_continue_step:
  assumes "i < length items"
  shows "for_items res True sw items i rd (world_before sw w i)
     = for_items res True sw items (Suc i) (rd @ [entry_of i (outcome sw w i)])
         (world_before sw w (Suc i))"
proof (cases "outcome sw w i")
  case (Inl e)
  have "sw i (world_before sw w i) = (Inl e, world_before sw w (Suc i))"
    unfolding sw_world_before Inl ..
  from for_items_step_continue [where sw = sw and w = "world_before sw w i", OF assms this] show ?thesis
    unfolding Inl .
next
  case (Inr r)
  have "sw i (world_before sw w i) = (Inr r, world_before sw w (Suc i))"
    unfolding sw_world_before Inr ..
  from for_items_step_ok [where sw = sw and w = "world_before sw w i", OF assms this] show ?thesis
    unfolding Inr .
qed

lemma for_items_ok_step:
  assumes "i < length items" and "outcome sw w i = Inr r"
  shows "for_items res c sw items i rd (world_before sw w i)
     = for_items res c sw items (Suc i) (rd @ [entry_of i (outcome sw w i)])
         (world_before sw w (Suc i))"
proof -
  have "sw i (world_before sw w i) = (Inr r, world_before sw w (Suc i))"
    unfolding sw_world_before assms(2) ..
  from for_items_step_ok [where sw = sw and w = "world_before sw w i", OF assms(1) this] show ?thesis
    unfolding assms(2) .
qed

lemma for_items_continue:
  "i \<le> length items \<Longrightarrow>
   for_items res True sw items i rd (world_before sw w i)
     = (Inr (rd @ map (\<lambda>k. entry_of k (outcome sw w k)) [i..<length items]),
        world_before sw w (length items))"
proof (induction "length items - i" arbitrary: i rd)
  case 0
  then show ?case by (simp add: for_items_done del: world_before.simps)
next
  case (Suc d)
  then have lt: "i < length items" by simp
  have d: "d = length items - Suc i" using Suc.hyps(2) by simp
  have le: "Suc i \<le> length items" using lt by simp
  have "for_items res True sw items i rd (world_before sw w i)
     = for_items res True sw items (Suc i) (rd @ [entry_of i (outcome sw w i)])
         (world_before sw w (Suc i))"
    by (rule for_items_continue_step [OF lt])
  also have "\<dots> = (Inr ((rd @ [entry_of i (outcome sw w i)])
                       @ map (\<lambda>k. entry_of k (outcome sw w k)) [Suc i..<length items]),
        world_before sw w (length items))"
    by (rule Suc.hyps(1) [OF d le])
  also have "(rd @ [entry_of i (outcome sw w i)])
                       @ map (\<lambda>k. entry_of k (outcome sw w k)) [Suc i..<length items]
       = rd @ map (\<lambda>k. entry_of k (outcome sw w k)) [i..<length items]"
    by (simp add: upt_conv_Cons [OF lt])
  finally show ?case .
qed

lemma for_items_abort:
  "i \<le> k \<Longrightarrow> k < length items \<Longrightarrow> outcome sw w k = Inl e \<Longrightarrow>
   (\<forall>j. i \<le> j \<and> j < k \<longrightarrow> (\<exists>r. outcome sw w j = Inr r)) \<Longrightarrow>
   for_items res False sw items i rd (world_before sw w i)
     = (Inl (rethrow res e), world_before sw w (Suc k))"
proof (induction "k - i" arbitrary: i rd)
  case 0
  then have ik: "i = k" by simp
  have "sw k (world_before sw w k) = (Inl e, world_before sw w (Suc k))"
    unfolding sw_world_before "0.prems"(3) ..
  from for_items_step_abort [where sw = sw and w = "world_before sw w k", OF "0.prems"(2) this] show ?case
    unfolding ik .
next
  case (Suc d)
  then have lt: "i < k" by simp
  then obtain r where r: "outcome sw w i = Inr r"
    using Suc.prems(4) by auto
  have d: "d = k - Suc i" using Suc.hyps(2) by simp
  have le: "Suc i \<le> k" using lt by simp
  have li: "i < length items" using lt Suc.prems(2) by simp
  have rest: "\<forall>j. Suc i \<le> j \<and> j < k \<longrightarrow> (\<exists>r. outcome sw w j = Inr r)"
    using Suc.prems(4) by auto
  have "for_items res False sw items i rd (world_before sw w i)
     = for_items res False sw items (Suc i) (rd @ [entry_of i (outcome sw w i)])
         (world_before sw w (Suc i))"
    by (rule for_items_ok_step [OF li r])
  also have "\<dots> = (Inl (rethrow res e), world_before sw w (Suc k))"
    by (rule Suc.hyps(1) [OF d le Suc.prems(2) Suc.prems(3) rest])
  finally show ?case .
qed

text \<open>
  C8. With \<^verbatim>\<open>continueOnFail\<close> on, a handler returns one entry per item, in order, each
  paired to its item's index: the result of the item, or \<^verbatim>\<open>{ error: error.message }\<close>
  when processing it threw; every item is processed. With \<^verbatim>\<open>continueOnFail\<close> off, the
  first item whose processing throws ends the run: the handler throws (for the SNIP-20
  and SNIP-721 handlers, the caught error itself), nothing is returned and no later item
  is processed.
\<close>

theorem continueOnFail_semantics:
  "execute_items res True sw items w
     = (Inr (map (\<lambda>k. entry_of k (outcome sw w k)) [0..<length items]),
        world_before sw w (length items))
   \<and> (\<forall>k e. k < length items \<and> outcome sw w k = Inl e
          \<and> (\<forall>j<k. \<exists>r. outcome sw w j = Inr r)
        \<longrightarrow> execute_items res False sw items w
              = (Inl (rethrow res e), world_before sw w (Suc k)))
   \<and> (\<forall>k e. entry_of k (Inl e) = \<lparr>json = JObj [(''error'', JStr (message e))], pairedItem = k\<rparr>)
   \<and> (\<forall>e. rethrow Snip20Tokens e = Rethrown e \<and> rethrow Snip721Tokens e = Rethrown e)"
proof -
  have a: "execute_items res True sw items w
     = (Inr (map (\<lambda>k. entry_of k (outcome sw w k)) [0..<length items]),
        world_before sw w (length items))"
    using for_items_continue [of 0 items res sw "[]" w]
    by (simp add: execute_items_def)
  have b: "execute_items res False sw items w
              = (Inl (rethrow res e), world_before sw w (Suc k))"
    if "k < length items" "outcome sw w k = Inl e" "\<forall>j<k. \<exists>r. outcome sw w j = Inr r" for k e
    using for_items_abort [of 0 k items sw w e res "[]"] that
    by (simp add: execute_items_def del: world_before.simps(2))
  have c: "entry_of k (Inl e) = \<lparr>json = JObj [(''error'', JStr (message e))], pairedItem = k\<rparr>" for k e
    by (simp add: entry_of_def)
  show ?thesis
    using a b c by (simp del: world_before.simps(2))
qed


theorem continueOnFail_semantics_witness:
  "execute_items Snip721Tokens False
     (\<lambda>i w. if i = Suc 0 then (Inl (HttpRequestError ''Network error'' JUndefined), Suc w)
            else (Inr (JStr ''ok''), Suc w))
     [JNull, JNull, JNull] (0::nat)
     = (Inl (Rethrown (HttpRequestError ''Network error'' JUndefined)), 2)
   \<and> execute_items Snip721Tokens True
     (\<lambda>i w. if i = Suc 0 then (Inl (HttpRequestError ''Network error'' JUndefined), Suc w)
            else (Inr (JStr ''ok''), Suc w))
     [JNull, JNull, JNull] (0::nat)
     = (Inr [\<lparr>json = JStr ''ok'', pairedItem = 0\<rparr>,
             \<lparr>json = JObj [(''error'', JStr ''Network error'')], pairedItem = 1\<rparr>,
             \<lparr>json = JStr ''ok'', pairedItem = 2\<rparr>], 3)"
proof -
  let ?sw = "\<lambda>(i::nat) (w::nat). if i = Suc 0 then (Inl (HttpRequestError ''Network error'' JUndefined), Suc w)
            else (Inr (JStr ''ok''), Suc w)"
  have o0: "outcome ?sw 0 0 = Inr (JStr ''ok'')"
    by (simp add: outcome_def)
  have o1: "outcome ?sw 0 (Suc 0) = Inl (HttpRequestError ''Network error'' JUndefined)"
    by (simp add: outcome_def)
  have o2: "outcome ?sw 0 (Suc (Suc 0)) = Inr (JStr ''ok'')"
    by (simp add: outcome_def)
  have u: "[0..<length [JNull, JNull, JNull]] = [0, Suc 0, Suc (Suc 0)]"
    by (simp add: upt_conv_Cons)
  have hyp: "Suc 0 < length [JNull, JNull, JNull]
      \<and> outcome ?sw 0 (Suc 0) = Inl (HttpRequestError ''Network error'' JUndefined)
      \<and> (\<forall>j<Suc 0. \<exists>r. outcome ?sw 0 j = Inr r)"
    using o0 o1 by simp
  have w2: "world_before ?sw 0 (Suc (Suc 0)) = 2" and w3: "world_before ?sw 0 (length [JNull, JNull, JNull]) = 3"
    by simp_all
  from continueOnFail_semantics [of Snip721Tokens ?sw "[JNull, JNull, JNull]" 0]
  have a: "execute_items Snip721Tokens True ?sw [JNull, JNull, JNull] 0
       = (Inr (map (\<lambda>k. entry_of k (outcome ?sw 0 k)) [0..<length [JNull, JNull, JNull]]),
          world_before ?sw 0 (length [JNull, JNull, JNull]))"
   and b: "\<forall>k e. k < length [JNull, JNull, JNull] \<and> outcome ?sw 0 k = Inl e
          \<and> (\<forall>j<k. \<exists>r. outcome ?sw 0 j = Inr r)
        \<longrightarrow> execute_items Snip721Tokens False ?sw [JNull, JNull, JNull] 0
              = (Inl (rethrow Snip721Tokens e), world_before ?sw 0 (Suc k))"
    by blast+
  have b': "execute_items Snip721Tokens False ?sw [JNull, JNull, JNull] 0
              = (Inl (rethrow Snip721Tokens (HttpRequestError ''Network error'' JUndefined)),
                 world_before ?sw 0 (Suc (Suc 0)))"
    using b hyp by blast
  have a': "execute_items Snip721Tokens True ?sw [JNull, JNull, JNull] 0
     = (Inr [\<lparr>json = JStr ''ok'', pairedItem = 0\<rparr>,
             \<lparr>json = JObj [(''error'', JStr ''Network error'')], pairedItem = 1\<rparr>,
             \<lparr>json = JStr ''ok'', pairedItem = 2\<rparr>], 3)"
    unfolding a u w3 by (simp add: o0 o1 o2 entry_of_def del: world_before.simps)
  show ?thesis
    using a' b' w2 by (simp del: world_before.simps)
qed

section \<open>Properties of \<^verbatim>\<open>getBalance\<close>\<close>

lemma denom_equals_entry:
  "is_entry b \<Longrightarrow> denom_equals denom b = Inr (has_denom denom b)"
  by (cases b) (auto simp: denom_equals_def has_denom_def is_entry_def split: option.splits)

lemma filter_throwing_entries:
  "\<forall>b \<in> set bs. is_entry b \<Longrightarrow>
   filter_throwing (denom_equals denom) bs = Inr (filter (has_denom denom) bs)"
  by (induction bs) (simp_all add: denom_equals_entry)

lemma getBalance_no_filter:
  "getBalance httpRequest cred address [] w = httpRequest (getBalance_options cred address []) w"
  by (simp add: getBalance_def split: prod.splits sum.splits)

lemma set_prop_map_of:
  "map_of kvs k = Some v0 \<Longrightarrow> map_of (set_prop kvs k v) = (map_of kvs)(k \<mapsto> v)"
  by (induction kvs) (auto split: if_splits)

lemma set_prop_keys:
  "map_of kvs k = Some v0 \<Longrightarrow> map fst (set_prop kvs k v) = map fst kvs"
  by (induction kvs) (auto split: if_splits)

text \<open>
  C10. With an empty denomination filter \<^verbatim>\<open>getBalance\<close> returns whatever the request
  returned. With a non-empty filter and a response object whose \<^verbatim>\<open>balances\<close> is an array
  (of entries), the result is the response with \<^verbatim>\<open>balances\<close> replaced by the entries
  whose \<^verbatim>\<open>denom\<close> is the filter, in their order; the other properties and the order of
  the keys are kept. With a non-empty filter and a response whose \<^verbatim>\<open>balances\<close> is
  missing (or falsy), the response is returned as it is. An error of the request is
  passed on.
\<close>

theorem getBalance_filters_by_denom:
  "getBalance httpRequest cred address [] w
     = httpRequest (getBalance_options cred address []) w
   \<and> (denom \<noteq> [] \<and> httpRequest (getBalance_options cred address denom) w = (Inr (JObj kvs), w')
        \<and> map_of kvs ''balances'' = Some (JArr bs) \<and> (\<forall>b \<in> set bs. is_entry b)
      \<longrightarrow> getBalance httpRequest cred address denom w
            = (Inr (JObj (set_prop kvs ''balances'' (JArr (filter (has_denom denom) bs)))), w')
          \<and> map_of (set_prop kvs ''balances'' (JArr (filter (has_denom denom) bs)))
              = (map_of kvs)(''balances'' \<mapsto> JArr (filter (has_denom denom) bs))
          \<and> map fst (set_prop kvs ''balances'' (JArr (filter (has_denom denom) bs))) = map fst kvs)
   \<and> (denom \<noteq> [] \<and> httpRequest (getBalance_options cred address denom) w = (Inr result, w')
        \<and> js_get result ''balances'' = Inr balances \<and> \<not> truthy balances
      \<longrightarrow> getBalance httpRequest cred address denom w = (Inr result, w'))
   \<and> (httpRequest (getBalance_options cred address denom) w = (Inl e, w')
      \<longrightarrow> getBalance httpRequest cred address denom w = (Inl e, w'))"
proof -
  have a: "getBalance httpRequest cred address [] w
     = httpRequest (getBalance_options cred address []) w"
    by (rule getBalance_no_filter)
  have b: "getBalance httpRequest cred address denom w
            = (Inr (JObj (set_prop kvs ''balances'' (JArr (filter (has_denom denom) bs)))), w')"
    if "denom \<noteq> []" "httpRequest (getBalance_options cred address denom) w = (Inr (JObj kvs), w')"
       "map_of kvs ''balances'' = Some (JArr bs)" "\<forall>b \<in> set bs. is_entry b"
    using that by (simp add: getBalance_def filter_throwing_entries)
  have c: "getBalance httpRequest cred address denom w = (Inr result, w')"
    if "denom \<noteq> []" "httpRequest (getBalance_options cred address denom) w = (Inr result, w')"
       "js_get result ''balances'' = Inr balances" "\<not> truthy balances"
    using that by (simp add: getBalance_def)
  have d: "getBalance httpRequest cred address denom w = (Inl e, w')"
    if "httpRequest (getBalance_options cred address denom) w = (Inl e, w')"
    using that by (simp add: getBalance_def)
  show ?thesis
    using a b c d set_prop_map_of [of kvs "''balances''" "JArr bs"]
      set_prop_keys [of kvs "''balances''" "JArr bs"]
    by blast
qed

theorem getBalance_filters_by_denom_witness:
  "getBalance
     (\<lambda>opts (w::unit).
        (Inr (JObj [(''balances'',
                     JArr [JObj [(''denom'', JStr ''uscrt''), (''amount'', JStr ''1000000'')],
                           JObj [(''denom'', JStr ''ibc/token''), (''amount'', JStr ''500000'')]]),
                    (''pagination'', JObj [(''next_key'', JNull), (''total'', JStr ''2'')])]), w))
     \<lparr>baseUrl = ''https://lcd.secret.express'', chainId = JUndefined\<rparr> ''secret1test'' ''uscrt'' ()
   = (Inr (JObj [(''balances'',
                  JArr [JObj [(''denom'', JStr ''uscrt''), (''amount'', JStr ''1000000'')]]),
                 (''pagination'', JObj [(''next_key'', JNull), (''total'', JStr ''2'')])]), ())
   \<and> getBalance (\<lambda>opts (w::unit). (Inr (JObj [(''pagination'', JNull)]), w))
       \<lparr>baseUrl = ''https://lcd.secret.express'', chainId = JUndefined\<rparr> ''secret1test'' ''uscrt'' ()
     = (Inr (JObj [(''pagination'', JNull)]), ())"
proof -
  let ?b1 = "JObj [(''denom'', JStr ''uscrt''), (''amount'', JStr ''1000000'')]"
  let ?b2 = "JObj [(''denom'', JStr ''ibc/token''), (''amount'', JStr ''500000'')]"
  let ?rest = "[(''pagination'', JObj [(''next_key'', JNull), (''total'', JStr ''2'')])]"
  let ?kvs = "(''balances'', JArr [?b1, ?b2]) # ?rest"
  let ?http = "\<lambda>(opts::http_options) (w::unit). (Inr (JObj ?kvs) :: error + jsval, w)"
  let ?http2 = "\<lambda>(opts::http_options) (w::unit). (Inr (JObj [(''pagination'', JNull)]) :: error + jsval, w)"
  have h1: "''uscrt'' \<noteq> [] \<and> ?http (getBalance_options \<lparr>baseUrl = ''https://lcd.secret.express'', chainId = JUndefined\<rparr> ''secret1test'' ''uscrt'') ()
              = (Inr (JObj ?kvs), ())
        \<and> map_of ?kvs ''balances'' = Some (JArr [?b1, ?b2]) \<and> (\<forall>b \<in> set [?b1, ?b2]. is_entry b)"
    by (simp add: is_entry_def)
  have f: "filter (has_denom ''uscrt'') [?b1, ?b2] = [?b1]"
    by (simp add: has_denom_def)
  have h2: "''uscrt'' \<noteq> [] \<and> ?http2 (getBalance_options \<lparr>baseUrl = ''https://lcd.secret.express'', chainId = JUndefined\<rparr> ''secret1test'' ''uscrt'') ()
              = (Inr (JObj [(''pagination'', JNull)]), ())
        \<and> js_get (JObj [(''pagination'', JNull)]) ''balances'' = Inr JUndefined \<and> \<not> truthy JUndefined"
    by simp
  have r1: "getBalance ?http \<lparr>baseUrl = ''https://lcd.secret.express'', chainId = JUndefined\<rparr> ''secret1test'' ''uscrt'' ()
            = (Inr (JObj (set_prop ?kvs ''balances'' (JArr (filter (has_denom ''uscrt'') [?b1, ?b2])))), ())"
    using getBalance_filters_by_denom
            [where httpRequest = ?http and cred = "\<lparr>baseUrl = ''https://lcd.secret.express'', chainId = JUndefined\<rparr>"
               and address = "''secret1test''" and denom = "''uscrt''" and w = "()" and w' = "()"
               and kvs = ?kvs and bs = "[?b1, ?b2]"] h1
    by blast
  have r2: "getBalance ?http2 \<lparr>baseUrl = ''https://lcd.secret.express'', chainId = JUndefined\<rparr> ''secret1test'' ''uscrt'' ()
            = (Inr (JObj [(''pagination'', JNull)]), ())"
    using getBalance_filters_by_denom
            [where httpRequest = ?http2 and cred = "\<lparr>baseUrl = ''https://lcd.secret.express'', chainId = JUndefined\<rparr>"
               and address = "''secret1test''" and denom = "''uscrt''" and w = "()" and w' = "()"
               and result = "JObj [(''pagination'', JNull)]" and balances = JUndefined] h2
    by blast
  show ?thesis
    unfolding r1 r2 f by simp
qed

section \<open>Properties of the signing pipeline\<close>

lemma toString_base64_empty: "toString_base64 bs = [] \<longleftrightarrow> bs = []"
  by (cases bs rule: toString_base64.cases) simp_all

lemma Buffer_from_JSON_object:
  "Buffer_from_JSON (JObj kvs)
     = Inr (utf8 (''{'' @ join_comma (members (map (map_prod id JSON_stringify) kvs)) @ ''}''))"
  by (simp add: Buffer_from_JSON_def)


lemma sign_tx_signatures:
  assumes "sign_tx lib cred contractAddress executeMsg privKeyBuffer pubKey address accountResponse gasLimit gasPrice
             = Inr (bytes_pair, signatures)"
  shows "\<exists>hash signature. ecdsaSign lib hash privKeyBuffer = Inr signature
            \<and> signatures = [toString_base64 signature]"
  using assms
  by (auto simp: sign_tx_def Let_def split: sum.splits prod.splits)


lemma signAndBroadcastTx_account_request_fails:
  assumes "publicKeyCreate lib (from_hex privateKey) = Inr pubKey"
    and "httpRequest (accountOptions cred (getAddressFromPubKey (sha256 lib) (ripemd160 lib) pubKey)) w
           = (Inl e, w1)"
  shows "signAndBroadcastTx lib httpRequest cred contractAddress executeMsg privateKey gasLimit gasPrice w
           = (Inl e, w1)"
  using assms by (simp add: signAndBroadcastTx_def Let_def)

lemma signAndBroadcastTx_sign_fails:
  assumes "publicKeyCreate lib (from_hex privateKey) = Inr pubKey"
    and "httpRequest (accountOptions cred (getAddressFromPubKey (sha256 lib) (ripemd160 lib) pubKey)) w
           = (Inr accountResponse, w1)"
    and "sign_tx lib cred contractAddress executeMsg (from_hex privateKey) pubKey
           (getAddressFromPubKey (sha256 lib) (ripemd160 lib) pubKey) accountResponse gasLimit gasPrice
           = Inl e"
  shows "signAndBroadcastTx lib httpRequest cred contractAddress executeMsg privateKey gasLimit gasPrice w
           = (Inl e, w1)"
  using assms by (simp add: signAndBroadcastTx_def Let_def)

lemma signAndBroadcastTx_reaches_broadcast:
  assumes "publicKeyCreate lib (from_hex privateKey) = Inr pubKey"
    and "httpRequest (accountOptions cred (getAddressFromPubKey (sha256 lib) (ripemd160 lib) pubKey)) w
           = (Inr accountResponse, w1)"
    and "sign_tx lib cred contractAddress executeMsg (from_hex privateKey) pubKey
           (getAddressFromPubKey (sha256 lib) (ripemd160 lib) pubKey) accountResponse gasLimit gasPrice
           = Inr (bytes_pair, signatures)"
  shows "\<exists>tx. Buffer_from_JSON (txRaw_object bytes_pair signatures) = Inr tx
          \<and> signAndBroadcastTx lib httpRequest cred contractAddress executeMsg privateKey gasLimit gasPrice w
              = httpRequest (broadcastOptions cred tx) w1"
  using assms
  by (simp add: signAndBroadcastTx_def Let_def txRaw_object_def Buffer_from_JSON_object)

lemma example_sign_tx:
  "account_identity account = Inr (s, n) \<Longrightarrow>
   \<exists>bp. sign_tx example_crypto cred contractAddress example_msg key pubKey address account gasLimit gasPrice
     = Inr (bp, [toString_base64 (replicate 64 1)])"
  by (simp add: sign_tx_def example_crypto_def example_msg_def Buffer_from_JSON_def
        txRaw_of_def signBytes_of_def txBody_of_def authInfo_of_def signDoc_of_def Let_def)

lemma example_public_key:
  "publicKeyCreate example_crypto (from_hex ''01'') = Inr (replicate 33 2)"
  by (simp add: example_crypto_def)

lemma example_account_request:
  "example_http account broadcast (accountOptions cred address) () = (Inr account, ())"
  by (simp add: example_http_def accountOptions_def)

lemma example_broadcast_request:
  "example_http account broadcast (broadcastOptions cred tx) () = (Inr broadcast, ())"
  by (simp add: example_http_def broadcastOptions_def)

lemma example_run:
  assumes "account_identity account = Inr (s, n)"
  shows "signAndBroadcastTx example_crypto (example_http account broadcast) example_credentials
           ''secret1contract'' example_msg ''01'' (Fin 200000) ''0.25uscrt'' ()
         = (Inr broadcast, ())"
proof -
  obtain bp where bp: "sign_tx example_crypto example_credentials ''secret1contract'' example_msg
      (from_hex ''01'') (replicate 33 2)
      (getAddressFromPubKey (sha256 example_crypto) (ripemd160 example_crypto) (replicate 33 2))
      account (Fin 200000) ''0.25uscrt'' = Inr (bp, [toString_base64 (replicate 64 1)])"
    using example_sign_tx [OF assms] by blast
  from signAndBroadcastTx_reaches_broadcast
         [where httpRequest = "example_http account broadcast" and w = "()",
          OF example_public_key example_account_request bp]
  obtain tx where "signAndBroadcastTx example_crypto (example_http account broadcast) example_credentials
           ''secret1contract'' example_msg ''01'' (Fin 200000) ''0.25uscrt'' ()
         = example_http account broadcast (broadcastOptions example_credentials tx) ()"
    by blast
  then show ?thesis
    by (simp only: example_broadcast_request)
qed

lemma logged_call:
  "h opts w = (r, w') \<Longrightarrow> logged h opts (w, reqs) = (r, (w', reqs @ [opts]))"
  by (simp add: logged_def)

lemma method_accountOptions: "http_method (accountOptions cred address) = ''GET''"
  by (simp add: accountOptions_def)






text \<open>
  C7 (as the code has it). Once the transaction is signed, the result of
  \<^verbatim>\<open>signAndBroadcastTx\<close> is the outcome of the broadcast request and nothing else: the
  response is returned as received, whatever result code it reports, and an error of
  the request is passed on unchanged.
\<close>

theorem broadcast_response_returned:
  assumes "publicKeyCreate lib (from_hex privateKey) = Inr pubKey"
    and "httpRequest (accountOptions cred (getAddressFromPubKey (sha256 lib) (ripemd160 lib) pubKey)) w
           = (Inr accountResponse, w1)"
    and "sign_tx lib cred contractAddress executeMsg (from_hex privateKey) pubKey
           (getAddressFromPubKey (sha256 lib) (ripemd160 lib) pubKey) accountResponse gasLimit gasPrice
           = Inr (bytes_pair, signatures)"
  shows "\<exists>tx. Buffer_from_JSON (txRaw_object bytes_pair signatures) = Inr tx
          \<and> signAndBroadcastTx lib httpRequest cred contractAddress executeMsg privateKey gasLimit gasPrice w
              = httpRequest (broadcastOptions cred tx) w1
          \<and> (\<forall>response w2. httpRequest (broadcastOptions cred tx) w1 = (Inr response, w2)
                \<longrightarrow> signAndBroadcastTx lib httpRequest cred contractAddress executeMsg privateKey
                       gasLimit gasPrice w = (Inr response, w2))
          \<and> (\<forall>e w2. httpRequest (broadcastOptions cred tx) w1 = (Inl e, w2)
                \<longrightarrow> signAndBroadcastTx lib httpRequest cred contractAddress executeMsg privateKey
                       gasLimit gasPrice w = (Inl e, w2))"
proof -
  from signAndBroadcastTx_reaches_broadcast [where httpRequest = httpRequest and w = w, OF assms]
  obtain tx where tx: "Buffer_from_JSON (txRaw_object bytes_pair signatures) = Inr tx"
    and run: "signAndBroadcastTx lib httpRequest cred contractAddress executeMsg privateKey gasLimit gasPrice w
              = httpRequest (broadcastOptions cred tx) w1"
    by blast
  show ?thesis
    using tx run by auto
qed

theorem broadcast_response_returned_witness:
  "signAndBroadcastTx example_crypto
     (example_http
        (JObj [(''account'', JObj [(''sequence'', JStr ''1''), (''account_number'', JStr ''123'')])])
        (JObj [(''tx_response'', JObj [(''txhash'', JStr ''hash123''), (''code'', JNum (Fin 0))])]))
     example_credentials ''secret1contract'' example_msg ''01'' (Fin 200000) ''0.25uscrt'' ()
   = (Inr (JObj [(''tx_response'', JObj [(''txhash'', JStr ''hash123''), (''code'', JNum (Fin 0))])]), ())"
proof -
  let ?acct = "JObj [(''account'', JObj [(''sequence'', JStr ''1''), (''account_number'', JStr ''123'')])]"
  let ?resp = "JObj [(''tx_response'', JObj [(''txhash'', JStr ''hash123''), (''code'', JNum (Fin 0))])]"
  have a: "account_identity ?acct = Inr (JStr ''1'', JStr ''123'')"
    by (simp add: account_identity_def js_or_def)
  obtain bp where bp: "sign_tx example_crypto example_credentials ''secret1contract'' example_msg
      (from_hex ''01'') (replicate 33 2)
      (getAddressFromPubKey (sha256 example_crypto) (ripemd160 example_crypto) (replicate 33 2))
      ?acct (Fin 200000) ''0.25uscrt'' = Inr (bp, [toString_base64 (replicate 64 1)])"
    using example_sign_tx [OF a] by blast
  from broadcast_response_returned
         [where httpRequest = "example_http ?acct ?resp" and w = "()",
          OF example_public_key example_account_request bp]
  obtain tx where "\<forall>response w2.
      example_http ?acct ?resp (broadcastOptions example_credentials tx) () = (Inr response, w2)
      \<longrightarrow> signAndBroadcastTx example_crypto (example_http ?acct ?resp) example_credentials
            ''secret1contract'' example_msg ''01'' (Fin 200000) ''0.25uscrt'' () = (Inr response, w2)"
    by blast
  then show ?thesis
    using example_broadcast_request [of ?acct ?resp example_credentials tx] by blast
qed

text \<open>
  C7 as stated fails: a broadcast response with result code 5 is returned as the
  result of the operation.
\<close>

theorem nonzero_code_returned_counterexample:
  "signAndBroadcastTx example_crypto
     (example_http
        (JObj [(''account'', JObj [(''sequence'', JStr ''1''), (''account_number'', JStr ''123'')])])
        (JObj [(''tx_response'', JObj [(''txhash'', JStr ''hash123''), (''code'', JNum (Fin 5)),
                                         (''raw_log'', JStr ''insufficient fees'')])]))
     example_credentials ''secret1contract'' example_msg ''01'' (Fin 200000) ''0.25uscrt'' ()
   = (Inr (JObj [(''tx_response'', JObj [(''txhash'', JStr ''hash123''), (''code'', JNum (Fin 5)),
                                         (''raw_log'', JStr ''insufficient fees'')])]), ())"
  by (rule example_run [where s = "JStr ''1''" and n = "JStr ''123''"])
     (simp add: account_identity_def js_or_def)

lemma logged_cases:
  "logged h opts (w, reqs) = (r, (w', reqs')) \<Longrightarrow> reqs' = reqs @ [opts] \<and> h opts w = (r, w')"
  by (auto simp: logged_def split: prod.splits)

lemma method_broadcastOptions: "http_method (broadcastOptions cred tx) = ''POST''"
  by (simp add: broadcastOptions_def)

lemma signAndBroadcastTx_requests:
  assumes "signAndBroadcastTx lib (logged httpRequest) cred contractAddress executeMsg privateKey
             gasLimit gasPrice (w, []) = (r, (w', reqs))"
  shows "reqs = []
       \<or> (\<exists>address. reqs = [accountOptions cred address])
       \<or> (\<exists>address bytes_pair hash signature tx.
              reqs = [accountOptions cred address, broadcastOptions cred tx]
            \<and> ecdsaSign lib hash (from_hex privateKey) = Inr signature
            \<and> Buffer_from_JSON (txRaw_object bytes_pair [toString_base64 signature]) = Inr tx)"
proof (cases "publicKeyCreate lib (from_hex privateKey)")
  case (Inl e)
  then show ?thesis
    using assms by (simp add: signAndBroadcastTx_def Let_def)
next
  case (Inr pubKey)
  let ?address = "getAddressFromPubKey (sha256 lib) (ripemd160 lib) pubKey"
  obtain r1 w1 where req1: "httpRequest (accountOptions cred ?address) w = (r1, w1)"
    by (cases "httpRequest (accountOptions cred ?address) w") blast
  have l1: "logged httpRequest (accountOptions cred ?address) (w, []) = (r1, (w1, [accountOptions cred ?address]))"
    using logged_call [where h = httpRequest and w = w and reqs = "[]", OF req1] by simp
  show ?thesis
  proof (cases r1)
    case (Inl e)
    have "signAndBroadcastTx lib (logged httpRequest) cred contractAddress executeMsg privateKey
             gasLimit gasPrice (w, []) = (Inl e, (w1, [accountOptions cred ?address]))"
      using signAndBroadcastTx_account_request_fails
              [where httpRequest = "logged httpRequest" and w = "(w, [])", OF Inr] l1 Inl
      by simp
    then show ?thesis using assms by auto
  next
    case accountResponse: (Inr accountResponse)
    let ?s = "sign_tx lib cred contractAddress executeMsg (from_hex privateKey) pubKey ?address
                accountResponse gasLimit gasPrice"
    have l1': "logged httpRequest (accountOptions cred ?address) (w, [])
                = (Inr accountResponse, (w1, [accountOptions cred ?address]))"
      using l1 accountResponse by simp
    show ?thesis
    proof (cases ?s)
      case (Inl e)
      have "signAndBroadcastTx lib (logged httpRequest) cred contractAddress executeMsg privateKey
             gasLimit gasPrice (w, []) = (Inl e, (w1, [accountOptions cred ?address]))"
        by (rule signAndBroadcastTx_sign_fails
              [where httpRequest = "logged httpRequest" and w = "(w, [])", OF Inr l1' Inl])
      then show ?thesis using assms by auto
    next
      case signed: (Inr p)
      obtain bytes_pair signatures where p: "p = (bytes_pair, signatures)"
        by (cases p)
      have s: "?s = Inr (bytes_pair, signatures)" using signed p by simp
      obtain hash signature where sig: "ecdsaSign lib hash (from_hex privateKey) = Inr signature"
        and sigs: "signatures = [toString_base64 signature]"
        using sign_tx_signatures [OF s] by blast
      obtain tx where tx: "Buffer_from_JSON (txRaw_object bytes_pair signatures) = Inr tx"
        and run: "signAndBroadcastTx lib (logged httpRequest) cred contractAddress executeMsg privateKey
             gasLimit gasPrice (w, [])
           = logged httpRequest (broadcastOptions cred tx) (w1, [accountOptions cred ?address])"
        using signAndBroadcastTx_reaches_broadcast
                [where httpRequest = "logged httpRequest" and w = "(w, [])", OF Inr l1' s]
        by blast
      have "logged httpRequest (broadcastOptions cred tx) (w1, [accountOptions cred ?address])
              = (r, (w', reqs))"
        using assms run by simp
      then have "reqs = [accountOptions cred ?address, broadcastOptions cred tx]"
        using logged_cases by fastforce
      then show ?thesis
        using sig tx sigs by blast
    qed
  qed
qed

text \<open>
  C5. Every \<^verbatim>\<open>POST\<close> request that a run of \<^verbatim>\<open>signAndBroadcastTx\<close> issues is the
  broadcast of a \<^verbatim>\<open>txRaw\<close> whose \<^verbatim>\<open>signatures\<close> list has exactly one element, a non-empty
  string (the base64 text of the signature, which the library returns as 64 bytes).
\<close>

theorem single_nonempty_signature:
  assumes signature_length:
      "\<forall>hash key signature. ecdsaSign lib hash key = Inr signature \<longrightarrow> length signature = 64"
    and run: "signAndBroadcastTx lib (logged httpRequest) cred contractAddress executeMsg privateKey
                gasLimit gasPrice (w, []) = (r, (w', reqs))"
  shows "\<forall>opts \<in> set reqs. http_method opts = ''POST'' \<longrightarrow>
           (\<exists>bytes_pair s tx.
               s \<noteq> []
             \<and> js_get (txRaw_object bytes_pair [s]) ''signatures'' = Inr (JArr [JStr s])
             \<and> Buffer_from_JSON (txRaw_object bytes_pair [s]) = Inr tx
             \<and> opts = broadcastOptions cred tx)"
proof -
  have sig_nonempty: "toString_base64 signature \<noteq> []"
    if "ecdsaSign lib hash key = Inr signature" for hash key signature
  proof -
    have "length signature = 64" using signature_length that by blast
    then have "signature \<noteq> []" by auto
    then show ?thesis by (simp add: toString_base64_empty)
  qed
  have field: "js_get (txRaw_object bytes_pair [s]) ''signatures'' = Inr (JArr [JStr s])" for bytes_pair s
    by (simp add: txRaw_object_def)
  from signAndBroadcastTx_requests [OF run]
  consider "reqs = []"
    | address where "reqs = [accountOptions cred address]"
    | address bytes_pair hash signature tx where
        "reqs = [accountOptions cred address, broadcastOptions cred tx]"
        "ecdsaSign lib hash (from_hex privateKey) = Inr signature"
        "Buffer_from_JSON (txRaw_object bytes_pair [toString_base64 signature]) = Inr tx"
    by blast
  then show ?thesis
  proof cases
    case 1
    then show ?thesis by simp
  next
    case 2
    then show ?thesis by (simp add: method_accountOptions)
  next
    case 3
    have "\<exists>bytes_pair s tx'.
               s \<noteq> []
             \<and> js_get (txRaw_object bytes_pair [s]) ''signatures'' = Inr (JArr [JStr s])
             \<and> Buffer_from_JSON (txRaw_object bytes_pair [s]) = Inr tx'
             \<and> broadcastOptions cred tx = broadcastOptions cred tx'"
      using sig_nonempty [OF 3(2)] field 3(3) by blast
    then show ?thesis
      using 3(1) by (simp add: method_accountOptions)
  qed
qed

theorem single_nonempty_signature_witness:
  "\<exists>bytes_pair s tx.
      s \<noteq> []
    \<and> js_get (txRaw_object bytes_pair [s]) ''signatures'' = Inr (JArr [JStr s])
    \<and> Buffer_from_JSON (txRaw_object bytes_pair [s]) = Inr tx
    \<and> snd (snd (signAndBroadcastTx example_crypto
          (logged (example_http
             (JObj [(''account'', JObj [(''sequence'', JStr ''1''), (''account_number'', JStr ''123'')])])
             (JObj [(''tx_response'', JObj [(''txhash'', JStr ''hash123''), (''code'', JNum (Fin 0))])])))
          example_credentials ''secret1contract'' example_msg ''01'' (Fin 200000) ''0.25uscrt'' ((), [])))
      = [accountOptions example_credentials
           (getAddressFromPubKey (sha256 example_crypto) (ripemd160 example_crypto) (replicate 33 2)),
         broadcastOptions example_credentials tx]"
proof -
  let ?acct = "JObj [(''account'', JObj [(''sequence'', JStr ''1''), (''account_number'', JStr ''123'')])]"
  let ?resp = "JObj [(''tx_response'', JObj [(''txhash'', JStr ''hash123''), (''code'', JNum (Fin 0))])]"
  let ?address = "getAddressFromPubKey (sha256 example_crypto) (ripemd160 example_crypto) (replicate 33 2)"
  let ?h = "logged (example_http ?acct ?resp)"
  let ?run = "signAndBroadcastTx example_crypto ?h example_credentials ''secret1contract'' example_msg
                ''01'' (Fin 200000) ''0.25uscrt'' ((), [])"
  have a: "account_identity ?acct = Inr (JStr ''1'', JStr ''123'')"
    by (simp add: account_identity_def js_or_def)
  obtain bp where bp: "sign_tx example_crypto example_credentials ''secret1contract'' example_msg
      (from_hex ''01'') (replicate 33 2) ?address ?acct (Fin 200000) ''0.25uscrt''
      = Inr (bp, [toString_base64 (replicate 64 1)])"
    using example_sign_tx [OF a] by blast
  have l1: "?h (accountOptions example_credentials ?address) ((), [])
              = (Inr ?acct, ((), [accountOptions example_credentials ?address]))"
    using logged_call [where h = "example_http ?acct ?resp" and w = "()" and reqs = "[]",
                       OF example_account_request]
    by simp
  obtain tx0 where run0: "?run = ?h (broadcastOptions example_credentials tx0)
                                 ((), [accountOptions example_credentials ?address])"
    using signAndBroadcastTx_reaches_broadcast
            [where httpRequest = ?h and w = "((), [])", OF example_public_key l1 bp]
    by blast
  have run: "?run = (Inr ?resp, ((), [accountOptions example_credentials ?address,
                                      broadcastOptions example_credentials tx0]))"
    unfolding run0
    using logged_call [where h = "example_http ?acct ?resp" and w = "()"
                         and reqs = "[accountOptions example_credentials ?address]",
                       OF example_broadcast_request]
    by simp
  have len: "\<forall>hash key signature.
      ecdsaSign example_crypto hash key = Inr signature \<longrightarrow> length signature = 64"
    by (auto simp: example_crypto_def)
  have post: "broadcastOptions example_credentials tx0
                \<in> set [accountOptions example_credentials ?address, broadcastOptions example_credentials tx0]"
    by simp
  have "\<exists>bytes_pair s tx.
               s \<noteq> []
             \<and> js_get (txRaw_object bytes_pair [s]) ''signatures'' = Inr (JArr [JStr s])
             \<and> Buffer_from_JSON (txRaw_object bytes_pair [s]) = Inr tx
             \<and> broadcastOptions example_credentials tx0 = broadcastOptions example_credentials tx"
    by (rule single_nonempty_signature [OF len run, rule_format, OF post method_broadcastOptions])
  then obtain bytes_pair s tx where
      "s \<noteq> []" "js_get (txRaw_object bytes_pair [s]) ''signatures'' = Inr (JArr [JStr s])"
      "Buffer_from_JSON (txRaw_object bytes_pair [s]) = Inr tx"
      "broadcastOptions example_credentials tx0 = broadcastOptions example_credentials tx"
    by blast
  then show ?thesis
    unfolding run by (intro exI [of _ bytes_pair] exI [of _ s] exI [of _ tx]) simp
qed











section \<open>Properties of the number model\<close>

lemma pow2_powi: "pow2 k = 2 powi k"
  by (simp add: pow2_def power_int_def power_divide)

lemma pow10_powi: "pow10 k = 10 powi k"
  by (simp add: pow10_def power_int_def power_divide)

lemma powi_unique:
  fixes b a :: rat
  assumes "1 < b" "b powi d \<le> a" "a < b powi (d + 1)" "b powi d' \<le> a" "a < b powi (d' + 1)"
  shows "d = d'"
proof (rule ccontr)
  assume "d \<noteq> d'"
  then consider "d + 1 \<le> d'" | "d' + 1 \<le> d" by linarith
  then show False
  proof cases
    case 1
    have "b powi (d + 1) \<le> b powi d'"
      using 1 assms(1) by (intro power_int_increasing) auto
    then show False using assms by linarith
  next
    case 2
    have "b powi (d' + 1) \<le> b powi d"
      using 2 assms(1) by (intro power_int_increasing) auto
    then show False using assms by linarith
  qed
qed

lemma quotient_bounds:
  fixes a :: rat and B :: nat
  assumes B: "1 < B" and a: "0 < a" and pq: "quotient_of a = (p, q)"
  shows "of_nat B powi (int (floorlog B (nat p)) - int (floorlog B (nat q)) - 1) < a
       \<and> a < of_nat B powi (int (floorlog B (nat p)) - int (floorlog B (nat q)) + 1)"
proof -
  let ?b = "of_nat B :: rat"
  let ?P = "nat p" and ?Q = "nat q"
  let ?Lp = "floorlog B ?P" and ?Lq = "floorlog B ?Q"
  have q: "0 < q" using quotient_of_denom_pos [OF pq] .
  have aq: "a = of_int p / of_int q" using quotient_of_div [OF pq] .
  have p: "0 < p"
    using a q unfolding aq by (simp add: zero_less_divide_iff)
  have b1: "1 < ?b" using B by simp
  have b0: "0 < ?b" using B by simp
  have P: "0 < ?P" and Q: "0 < ?Q" using p q by simp_all
  have Lp1: "1 \<le> ?Lp" and Lq1: "1 \<le> ?Lq"
    using P Q B by (simp_all add: floorlog_def)
  have bp: "B ^ (?Lp - 1) \<le> ?P" "?P < B ^ ?Lp"
    using floorlog_bounds [OF P B] by simp_all
  have bq: "B ^ (?Lq - 1) \<le> ?Q" "?Q < B ^ ?Lq"
    using floorlog_bounds [OF Q B] by simp_all
  have rp: "?b ^ (?Lp - 1) \<le> of_int p" "of_int p < ?b ^ ?Lp"
  proof -
    have "(of_nat (B ^ (?Lp - 1)) :: rat) \<le> of_nat ?P" using bp(1) by (simp only: of_nat_le_iff)
    then show "?b ^ (?Lp - 1) \<le> of_int p" using p by simp
    have "(of_nat ?P :: rat) < of_nat (B ^ ?Lp)" using bp(2) by (simp only: of_nat_less_iff)
    then show "of_int p < ?b ^ ?Lp" using p by simp
  qed
  have rq: "?b ^ (?Lq - 1) \<le> of_int q" "of_int q < ?b ^ ?Lq"
  proof -
    have "(of_nat (B ^ (?Lq - 1)) :: rat) \<le> of_nat ?Q" using bq(1) by (simp only: of_nat_le_iff)
    then show "?b ^ (?Lq - 1) \<le> of_int q" using q by simp
    have "(of_nat ?Q :: rat) < of_nat (B ^ ?Lq)" using bq(2) by (simp only: of_nat_less_iff)
    then show "of_int q < ?b ^ ?Lq" using q by simp
  qed
  have qpos: "(0::rat) < of_int q" using q by simp
  have ppos: "(0::rat) < of_int p" using p by simp
  have up: "a < ?b powi (int ?Lp - int ?Lq + 1)"
  proof -
    have "a * of_int q = of_int p" using qpos unfolding aq by simp
    also have "\<dots> < ?b ^ ?Lp" by (rule rp(2))
    also have "\<dots> = ?b powi (int ?Lp - int ?Lq + 1) * ?b ^ (?Lq - 1)"
    proof -
      have e1: "?b powi ((int ?Lp - int ?Lq + 1) + int (?Lq - 1))
              = ?b powi (int ?Lp - int ?Lq + 1) * ?b powi (int (?Lq - 1))"
        using b0 by (intro power_int_add) simp
      have e2: "(int ?Lp - int ?Lq + 1) + int (?Lq - 1) = int ?Lp"
        using Lq1 by simp
      have "?b powi (int ?Lp - int ?Lq + 1) * ?b powi (int (?Lq - 1)) = ?b powi (int ?Lp)"
        by (simp only: e1 [symmetric] e2)
      then show ?thesis by (simp only: power_int_of_nat)
    qed
    also have "\<dots> \<le> ?b powi (int ?Lp - int ?Lq + 1) * of_int q"
      using rq(1) b0 by (intro mult_left_mono) (simp_all add: less_imp_le)
    finally show ?thesis using qpos by simp
  qed
  have lo: "?b powi (int ?Lp - int ?Lq - 1) < a"
  proof -
    have "?b powi (int ?Lp - int ?Lq - 1) * of_int q < ?b powi (int ?Lp - int ?Lq - 1) * ?b ^ ?Lq"
      using rq(2) b0 by (intro mult_strict_left_mono) simp_all
    also have "\<dots> = ?b ^ (?Lp - 1)"
    proof -
      have e1: "?b powi ((int ?Lp - int ?Lq - 1) + int ?Lq)
              = ?b powi (int ?Lp - int ?Lq - 1) * ?b powi (int ?Lq)"
        using b0 by (intro power_int_add) simp
      have e2: "(int ?Lp - int ?Lq - 1) + int ?Lq = int (?Lp - 1)"
        using Lp1 by simp
      have "?b powi (int ?Lp - int ?Lq - 1) * ?b powi (int ?Lq) = ?b powi (int (?Lp - 1))"
        by (simp only: e1 [symmetric] e2)
      then show ?thesis by (simp only: power_int_of_nat)
    qed
    also have "\<dots> \<le> of_int p" by (rule rp(1))
    also have "\<dots> = a * of_int q" using qpos unfolding aq by simp
    finally show ?thesis using qpos by simp
  qed
  show ?thesis using lo up by simp
qed

lemma ilog2_bounds:
  assumes "0 < a"
  shows "pow2 (ilog2 a) \<le> a \<and> a < pow2 (ilog2 a + 1)"
proof -
  obtain p q where pq: "quotient_of a = (p, q)" by (cases "quotient_of a")
  let ?d = "int (floorlog 2 (nat p)) - int (floorlog 2 (nat q))"
  have b: "2 powi (?d - 1) < a" "a < 2 powi (?d + 1)"
    using quotient_bounds [of 2 a p q] assms pq by simp_all
  show ?thesis
  proof (cases "pow2 ?d \<le> a")
    case True
    then have "ilog2 a = ?d" by (simp add: ilog2_def pq)
    then show ?thesis using True b(2) by (simp add: pow2_powi)
  next
    case False
    then have "ilog2 a = ?d - 1" by (simp add: ilog2_def pq)
    then show ?thesis using False b(1) by (simp add: pow2_powi)
  qed
qed

lemma ilog10_bounds:
  assumes "0 < a"
  shows "pow10 (ilog10 a) \<le> a \<and> a < pow10 (ilog10 a + 1)"
proof -
  obtain p q where pq: "quotient_of a = (p, q)" by (cases "quotient_of a")
  let ?d = "int (floorlog 10 (nat p)) - int (floorlog 10 (nat q))"
  have b: "10 powi (?d - 1) < a" "a < 10 powi (?d + 1)"
    using quotient_bounds [of 10 a p q] assms pq by simp_all
  show ?thesis
  proof (cases "pow10 ?d \<le> a")
    case True
    then have "ilog10 a = ?d" by (simp add: ilog10_def pq)
    then show ?thesis using True b(2) by (simp add: pow10_powi)
  next
    case False
    then have "ilog10 a = ?d - 1" by (simp add: ilog10_def pq)
    then show ?thesis using False b(1) by (simp add: pow10_powi)
  qed
qed

lemma ilog2_eq:
  assumes "pow2 e \<le> a" "a < pow2 (e + 1)"
  shows "ilog2 a = e"
proof -
  have "0 < pow2 e" by (simp add: pow2_powi)
  then have "0 < a" using assms(1) by linarith
  from ilog2_bounds [OF this] assms show ?thesis
    unfolding pow2_powi by (intro powi_unique [of 2 _ a]) simp_all
qed

lemma ilog10_eq:
  assumes "pow10 e \<le> a" "a < pow10 (e + 1)"
  shows "ilog10 a = e"
proof -
  have "0 < pow10 e" by (simp add: pow10_powi)
  then have "0 < a" using assms(1) by linarith
  from ilog10_bounds [OF this] assms show ?thesis
    unfolding pow10_powi by (intro powi_unique [of 10 _ a]) simp_all
qed

lemma round_half_even_of_int: "round_half_even (of_int n) = n"
  by (simp add: round_half_even_def)

text \<open>A certificate for the rounding of a positive rational in the normal range.\<close>

lemma to_double_normal:
  assumes "pow2 e \<le> x" "x < pow2 (e + 1)" "- 1022 \<le> e"
    and "round_half_even (x / pow2 (e - 52)) = n"
    and "of_int n * pow2 (e - 52) < pow2 1024"
  shows "to_double x = Fin (of_int n * pow2 (e - 52))"
proof -
  have "0 < pow2 e" by (simp add: pow2_powi)
  then have x: "0 < x" using assms(1) by linarith
  have e: "ilog2 x = e" using ilog2_eq [of e x] assms(1,2) by simp
  have m: "max e (- 1022) = e" using assms(3) by simp
  have ax: "\<bar>x\<bar> = x" using x by simp
  show ?thesis
    using x assms(4,5) unfolding to_double_def Let_def ax e m by simp
qed

lemma pow2_nonneg_exponent: "0 \<le> k \<Longrightarrow> pow2 k = 2 ^ nat k"
  by (simp add: pow2_def)

lemma to_double_int:
  assumes "0 < n" "n < 2 ^ 53"
  shows "to_double (of_int n) = Fin (of_int n)"
proof -
  let ?x = "of_int n :: rat"
  let ?e = "ilog2 ?x"
  have x: "0 < ?x" using assms(1) by simp
  have b: "pow2 ?e \<le> ?x" "?x < pow2 (?e + 1)"
    using ilog2_bounds [OF x] by simp_all
  have x1: "1 \<le> ?x" using assms(1) by (simp add: int_one_le_iff_zero_less)
  have x53: "?x < 2 ^ 53"
  proof -
    have "?x < of_int (2 ^ 53)" using assms(2) by (simp only: of_int_less_iff)
    then show ?thesis by simp
  qed
  have e0: "0 \<le> ?e"
  proof (rule ccontr)
    assume "\<not> 0 \<le> ?e"
    then have "?e + 1 \<le> 0" by simp
    then have "(2::rat) powi (?e + 1) \<le> 2 powi 0"
      by (intro power_int_increasing) simp_all
    then show False using b(2) x1 by (simp add: pow2_powi)
  qed
  have e52: "?e \<le> 52"
  proof (rule ccontr)
    assume "\<not> ?e \<le> 52"
    then have "53 \<le> ?e" by simp
    then have "(2::rat) powi 53 \<le> 2 powi ?e"
      by (intro power_int_increasing) simp_all
    then show False using b(1) x53 by (simp add: pow2_powi)
  qed
  let ?N = "n * 2 ^ nat (52 - ?e)"
  have ulp: "pow2 (?e - 52) * 2 ^ nat (52 - ?e) = 1"
  proof -
    have e1: "(2::rat) powi ((?e - 52) + int (nat (52 - ?e)))
                = 2 powi (?e - 52) * 2 powi int (nat (52 - ?e))"
      by (intro power_int_add) simp
    have e2: "(?e - 52) + int (nat (52 - ?e)) = 0" using e52 by simp
    have "(2::rat) powi (?e - 52) * 2 powi int (nat (52 - ?e)) = 1"
      by (simp only: e1 [symmetric] e2 power_int_0_right)
    then show ?thesis by (simp only: pow2_powi power_int_of_nat)
  qed
  have upos: "0 < pow2 (?e - 52)" by (simp add: pow2_powi)
  have q: "?x / pow2 (?e - 52) = of_int ?N"
  proof -
    have "of_int ?N * pow2 (?e - 52) = ?x * (pow2 (?e - 52) * 2 ^ nat (52 - ?e))"
      by (simp add: mult_ac)
    also have "\<dots> = ?x" by (simp only: ulp mult_1_right)
    finally show ?thesis using upos by (simp add: field_simps)
  qed
  have r: "round_half_even (?x / pow2 (?e - 52)) = ?N"
    unfolding q by (rule round_half_even_of_int)
  have inv: "of_int ?N * pow2 (?e - 52) = ?x"
    using q upos by (simp add: field_simps)
  have lt: "of_int ?N * pow2 (?e - 52) < pow2 1024"
  proof -
    have "(2::rat) ^ 53 \<le> 2 ^ 1024" by (intro power_increasing) simp_all
    then show ?thesis unfolding inv using x53 by (simp add: pow2_def)
  qed
  have "- 1022 \<le> ?e" using e0 by simp
  from to_double_normal [OF b this r lt] show ?thesis
    unfolding inv .
qed

lemma round_half_even_near:
  assumes "\<bar>x - of_int n\<bar> < 1 / 2"
  shows "round_half_even x = n"
proof (cases "of_int n \<le> x")
  case True
  have "\<lfloor>x\<rfloor> = n"
    using True assms by (intro floor_unique) linarith+
  then show ?thesis
    using True assms by (simp add: round_half_even_def)
next
  case False
  have m: "(of_int (n - 1) :: rat) = of_int n - 1" by simp
  have f: "\<lfloor>x\<rfloor> = n - 1"
  proof (rule floor_unique)
    show "of_int (n - 1) \<le> x" unfolding m using False assms by linarith
    show "x < of_int (n - 1) + 1" unfolding m using False by linarith
  qed
  have "1 / 2 < x - of_int (n - 1)"
    unfolding m using False assms by linarith
  then show ?thesis
    by (simp add: round_half_even_def f)
qed

lemma to_double_near:
  assumes "pow2 e \<le> x" "x < pow2 (e + 1)" "- 1022 \<le> e"
    and "\<bar>x / pow2 (e - 52) - of_int n\<bar> < 1 / 2"
    and "of_int n * pow2 (e - 52) < pow2 1024"
  shows "to_double x = Fin (of_int n * pow2 (e - 52))"
  using assms(1,2,3) round_half_even_near [OF assms(4)] assms(5) by (rule to_double_normal)


lemma find_digits_hit:
  "candidate m n0 k = Some s \<Longrightarrow> 0 < fuel \<Longrightarrow> find_digits m n0 k fuel = (s, k)"
  by (cases fuel) simp_all

lemma find_digits_miss:
  "candidate m n0 k = None \<Longrightarrow> find_digits m n0 k (Suc fuel) = find_digits m n0 (Suc k) fuel"
  by simp
lemma round_half_even_ge_floor: "\<lfloor>x\<rfloor> \<le> round_half_even x"
  by (simp add: round_half_even_def Let_def)

lemma to_double_large:
  assumes "2 ^ 53 \<le> v" and "to_double v = Fin r"
  shows "2 ^ 53 \<le> r"
proof -
  let ?e = "ilog2 v"
  have v: "0 < v"
  proof -
    have "(0::rat) < 2 ^ 53" by simp
    then show ?thesis using assms(1) by linarith
  qed
  have b: "pow2 ?e \<le> v" "v < pow2 (?e + 1)"
    using ilog2_bounds [OF v] by simp_all
  have e53: "53 \<le> ?e"
  proof (rule ccontr)
    assume "\<not> 53 \<le> ?e"
    then have "?e + 1 \<le> 53" by simp
    then have "(2::rat) powi (?e + 1) \<le> 2 powi 53"
      by (intro power_int_increasing) simp_all
    then show False using b(2) assms(1) by (simp add: pow2_powi)
  qed
  have m: "max ?e (- 1022) = ?e" using e53 by simp
  let ?ulp = "pow2 (?e - 52)"
  let ?N = "round_half_even (v / ?ulp)"
  have upos: "0 < ?ulp" by (simp add: pow2_powi)
  have split: "pow2 ?e = 2 ^ 52 * ?ulp"
  proof -
    have "(2::rat) powi (52 + (?e - 52)) = 2 powi 52 * 2 powi (?e - 52)"
      by (intro power_int_add) simp
    then show ?thesis by (simp add: pow2_powi)
  qed
  have "2 ^ 52 * ?ulp \<le> v" using b(1) split by simp
  then have "2 ^ 52 \<le> v / ?ulp" using upos by (simp add: pos_le_divide_eq)
  then have "(of_int (2 ^ 52) :: rat) \<le> v / ?ulp" by simp
  then have "2 ^ 52 \<le> \<lfloor>v / ?ulp\<rfloor>" by (simp only: le_floor_iff)
  then have N: "2 ^ 52 \<le> ?N" using round_half_even_ge_floor [of "v / ?ulp"] by linarith
  have "(of_int (2 ^ 52) :: rat) \<le> of_int ?N" using N by (simp only: of_int_le_iff)
  then have "2 ^ 52 * ?ulp \<le> of_int ?N * ?ulp"
    using upos by (intro mult_right_mono) simp_all
  then have big: "pow2 ?e \<le> of_int ?N * ?ulp" using split by simp
  have "(2::rat) powi 53 \<le> 2 powi ?e"
    using e53 by (intro power_int_increasing) simp_all
  then have ge: "2 ^ 53 \<le> of_int ?N * ?ulp" using big by (simp add: pow2_powi)
  have av: "\<bar>v\<bar> = v" using v by simp
  have "to_double v = (if pow2 1024 \<le> of_int ?N * ?ulp then PosInf else Fin (of_int ?N * ?ulp))"
    using v unfolding to_double_def Let_def av m by simp
  then have "r = of_int ?N * ?ulp"
    using assms(2) by (simp split: if_splits)
  then show ?thesis using ge by simp
qed

lemma to_double_int_eq_iff:
  assumes "0 \<le> a" "0 < n" "n < 2 ^ 53"
  shows "to_double (of_int a) = Fin (of_int n) \<longleftrightarrow> a = n"
proof
  assume "a = n"
  then show "to_double (of_int a) = Fin (of_int n)"
    using to_double_int [OF assms(2,3)] by simp
next
  assume eq: "to_double (of_int a) = Fin (of_int n)"
  show "a = n"
  proof (cases "a = 0")
    case True
    then show ?thesis using eq assms(2) by (simp add: to_double_def)
  next
    case False
    then have a: "0 < a" using assms(1) by simp
    show ?thesis
    proof (cases "a < 2 ^ 53")
      case True
      then show ?thesis using eq to_double_int [OF a True] by simp
    next
      case False
      then have "(of_int (2 ^ 53) :: rat) \<le> of_int a" by (simp only: of_int_le_iff)
      then have "(2::rat) ^ 53 \<le> of_int a" by simp
      from to_double_large [OF this eq] have "(of_int (2 ^ 53) :: rat) \<le> of_int n" by simp
      then have "2 ^ 53 \<le> n" by (simp only: of_int_le_iff)
      then show ?thesis using assms(3) by simp
    qed
  qed
qed

lemma pow10_nat: "pow10 (int j) = 10 ^ j"
  by (simp add: pow10_def)

lemma candidate_int:
  assumes n: "0 < n" "n < 2 ^ 53"
  shows "candidate (of_int n) (int k + int j) k
           = (if 10 ^ j dvd n then Some (n div 10 ^ j) else None)"
proof -
  let ?S = "10 ^ j :: int"
  let ?lo = "n div ?S"
  have S: "0 < ?S" by simp
  have sc: "pow10 (int k + int j - int k) = of_int ?S"
    by (simp add: pow10_nat)
  have fl: "\<lfloor>(of_int n :: rat) / of_int ?S\<rfloor> = ?lo"
    by (rule floor_divide_of_int_eq)
  have lo0: "0 \<le> ?lo" using n(1) S by (simp add: pos_imp_zdiv_nonneg_iff)
  have lo_ok: "to_double (of_int ?lo * of_int ?S) = Fin (of_int n) \<longleftrightarrow> ?S dvd n"
  proof -
    have "to_double (of_int (?lo * ?S)) = Fin (of_int n) \<longleftrightarrow> ?lo * ?S = n"
      using lo0 S by (intro to_double_int_eq_iff n) simp
    also have "\<dots> \<longleftrightarrow> ?S dvd n"
      by (metis dvd_div_mult_self dvd_triv_right)
    finally show ?thesis by simp
  qed
  have hi_ok: "to_double (of_int (?lo + 1) * of_int ?S) \<noteq> Fin (of_int n)"
  proof -
    have "n < (?lo + 1) * ?S"
    proof -
      have a: "n = ?lo * ?S + n mod ?S" by (rule div_mult_mod_eq [symmetric])
      have b: "n mod ?S < ?S" using S by (rule pos_mod_bound)
      have "(?lo + 1) * ?S = ?lo * ?S + ?S" by (simp add: algebra_simps)
      then show ?thesis using a b by linarith
    qed
    then have ne: "(?lo + 1) * ?S \<noteq> n" by simp
    have "to_double (of_int ((?lo + 1) * ?S)) = Fin (of_int n) \<longleftrightarrow> (?lo + 1) * ?S = n"
      using lo0 S by (intro to_double_int_eq_iff n) simp
    then show ?thesis using ne by simp
  qed
  show ?thesis
    unfolding candidate_def Let_def sc fl
    using lo_ok hi_ok by simp
qed

lemma find_digits_int:
  assumes n: "0 < n" "n < 2 ^ 53"
  shows "j < fuel \<Longrightarrow> find_digits (of_int n) (int k + int j) k fuel = (c, k') \<Longrightarrow>
         \<exists>j'. j' \<le> j \<and> int k' + int j' = int k + int j \<and> c * 10 ^ j' = n"
proof (induction fuel arbitrary: k j)
  case 0
  then show ?case by simp
next
  case (Suc fuel)
  show ?case
  proof (cases "(10::int) ^ j dvd n")
    case True
    then have "find_digits (of_int n) (int k + int j) k (Suc fuel) = (n div 10 ^ j, k)"
      by (simp add: candidate_int [OF n])
    then have "c = n div 10 ^ j" "k' = k" using Suc.prems(2) by simp_all
    then show ?thesis using True by (intro exI [of _ j]) simp
  next
    case False
    then have j0: "j \<noteq> 0" by (cases j) simp_all
    then obtain i where i: "j = Suc i" by (cases j) simp_all
    have cand: "candidate (of_int n) (int k + int j) k = None"
      using False by (simp only: candidate_int [OF n] if_False)
    have idx: "int k + int j = int (Suc k) + int i"
      using i by simp
    have "find_digits (of_int n) (int k + int j) k (Suc fuel)
            = find_digits (of_int n) (int k + int j) (Suc k) fuel"
      by (rule find_digits_miss [OF cand])
    then have step: "find_digits (of_int n) (int k + int j) k (Suc fuel)
                  = find_digits (of_int n) (int (Suc k) + int i) (Suc k) fuel"
      by (simp only: idx)
    have "find_digits (of_int n) (int (Suc k) + int i) (Suc k) fuel = (c, k')"
      using Suc.prems(2) step by simp
    moreover have "i < fuel" using Suc.prems(1) i by simp
    ultimately have "\<exists>j'. j' \<le> i \<and> int k' + int j' = int (Suc k) + int i \<and> c * 10 ^ j' = n"
      by (rule Suc.IH [of i "Suc k", rotated])
    then obtain j' where j': "j' \<le> i" "int k' + int j' = int (Suc k) + int i" "c * 10 ^ j' = n"
      by blast
    have "j' \<le> j" using j'(1) i by simp
    moreover have "int k' + int j' = int k + int j" using j'(2) i by simp
    ultimately show ?thesis using j'(3) by blast
  qed
qed

lemma char_of_48: "char_of (48::nat) = CHR ''0''"
  by code_simp

lemma digits_times_10:
  assumes "0 < c"
  shows "digits (c * 10) = digits c @ ''0''"
proof -
  have "\<not> c * 10 < 10" using assms by simp
  then have "digits (c * 10) = digits (c * 10 div 10) @ [char_of (48 + c * 10 mod 10)]"
    by (subst digits.simps) simp
  then show ?thesis by (simp add: char_of_48)
qed

lemma digits_times_power10:
  "0 < c \<Longrightarrow> digits (c * 10 ^ j) = digits c @ replicate j (CHR ''0'')"
proof (induction j)
  case 0
  then show ?case by simp
next
  case (Suc j)
  have "digits (c * 10 ^ Suc j) = digits ((c * 10 ^ j) * 10)" by (simp add: mult_ac)
  also have "\<dots> = digits (c * 10 ^ j) @ ''0''"
    using Suc.prems by (intro digits_times_10) simp
  also have "\<dots> = digits c @ replicate (Suc j) (CHR ''0'')"
    using Suc by (simp add: replicate_append_same)
  finally show ?case .
qed
text \<open>
  An integer below \<open>2^53\<close> prints as its decimal digits: the shortest digit string that
  reads back as the number is the number without its trailing zeros.
\<close>

lemma Number_toString_int:
  assumes n: "0 < n" "n < 2 ^ 53"
  shows "Number_toString (Fin (of_int n)) = digits (nat n)"
proof -
  let ?m = "of_int n :: rat"
  let ?D = "ilog10 ?m + 1"
  have m: "0 < ?m" using n(1) by simp
  have m1: "1 \<le> ?m" using n(1) by (simp add: int_one_le_iff_zero_less)
  have b: "pow10 (?D - 1) \<le> ?m" "?m < pow10 ?D"
    using ilog10_bounds [OF m] by simp_all
  have D1: "1 \<le> ?D"
  proof (rule ccontr)
    assume "\<not> 1 \<le> ?D"
    then have "?D \<le> 0" by simp
    then have "(10::rat) powi ?D \<le> 10 powi 0"
      by (intro power_int_increasing) simp_all
    then show False using b(2) m1 by (simp add: pow10_powi)
  qed
  have m53: "?m < 10 ^ 16"
  proof -
    have "?m < of_int (2 ^ 53)" using n(2) by (simp only: of_int_less_iff)
    also have "\<dots> < 10 ^ 16" by simp
    finally show ?thesis .
  qed
  have D16: "?D \<le> 16"
  proof (rule ccontr)
    assume "\<not> ?D \<le> 16"
    then have "16 \<le> ?D - 1" by simp
    then have "(10::rat) powi 16 \<le> 10 powi (?D - 1)"
      by (intro power_int_increasing) simp_all
    then show False using b(1) m53 by (simp add: pow10_powi)
  qed
  define j where "j = nat (?D - 1)"
  have Dj: "?D = int 1 + int j" using D1 by (simp add: j_def)
  have jf: "j < 17" using D16 by (simp add: j_def)
  obtain c k' where f: "find_digits ?m ?D 1 17 = (c, k')"
    by (cases "find_digits ?m ?D 1 17")
  have "find_digits ?m (int 1 + int j) 1 17 = (c, k')"
    using f Dj by simp
  from find_digits_int [OF n jf this]
  obtain j' where j': "j' \<le> j" "int k' + int j' = int 1 + int j" "c * 10 ^ j' = n"
    by blast
  have Dk: "?D = int k' + int j'" using j'(2) Dj by simp
  have c0: "0 < c"
  proof (rule ccontr)
    assume "\<not> 0 < c"
    then have "c * 10 ^ j' \<le> 0" by (simp add: mult_le_0_iff)
    then show False using j'(3) n(1) by simp
  qed
  have nlt: "n < 10 ^ (k' + j')"
  proof -
    have "pow10 ?D = 10 ^ (k' + j')"
      unfolding Dk by (simp add: pow10_def nat_add_distrib)
    then have "?m < of_int (10 ^ (k' + j'))" using b(2) by simp
    then show ?thesis by (simp only: of_int_less_iff)
  qed
  have ck: "c < 10 ^ k'"
  proof (rule ccontr)
    assume "\<not> c < 10 ^ k'"
    then have "10 ^ k' * 10 ^ j' \<le> c * (10 ^ j' :: int)"
      by (intro mult_right_mono) simp_all
    then show False using nlt j'(3) by (simp add: power_add)
  qed
  then have cne: "c \<noteq> 10 ^ k'" by simp
  have le: "int k' \<le> ?D" "?D \<le> 21" using Dk D16 by simp_all
  have dj: "nat (?D - int k') = j'" using Dk by simp
  have "positive_toString ?m = digits (nat c) @ replicate j' (CHR ''0'')"
    unfolding positive_toString_def Let_def f
    using cne le dj by (simp del: One_nat_def)
  also have "\<dots> = digits (nat c * 10 ^ j')"
    using c0 by (intro digits_times_power10 [symmetric]) simp
  also have "nat c * 10 ^ j' = nat n"
  proof -
    have "nat (c * 10 ^ j') = nat c * nat (10 ^ j')"
      using c0 by (intro nat_mult_distrib) simp
    then show ?thesis using j'(3) by (simp add: nat_power_eq)
  qed
  finally have "positive_toString ?m = digits (nat n)" .
  then show ?thesis using n(1) by simp
qed

lemma Number_toString_numeral:
  "(numeral k :: int) < 2 ^ 53 \<Longrightarrow> Number_toString (Fin (numeral k)) = digits (numeral k)"
  using Number_toString_int [of "numeral k"] by simp

section \<open>The fee of the signing pipeline\<close>



lemma strip_uscrt_007: "replace_first ''uscrt'' [] ''0.07uscrt'' = ''0.07''"
  by (simp add: starts_with_def)

lemma skip_no_space: "white_space_prefix s = 0 \<Longrightarrow> skip_white_space s = s"
  by (subst skip_white_space.simps) simp

lemma no_space_at_digit: "white_space_prefix (CHR ''0'' # s) = 0"
  by (simp add: white_space_prefix_def split: list.splits)



lemma parse_unsigned_007: "parse_unsigned ''0.07'' = Some (7 / 100)"
  by (simp add: parse_unsigned_def parse_exponent_def is_digit_def pow10_def Let_def)



lemma to_double_seven_hundredths:
  "to_double (7 / 100) = Fin (1261007895663739 / 18014398509481984)"
proof -
  have "to_double (7 / 100) = Fin (of_int 5044031582654956 * pow2 (- 4 - 52))"
    by (rule to_double_near) (simp_all add: pow2_def)
  then show ?thesis by (simp add: pow2_def)
qed



lemma parseFloat_007: "parseFloat ''0.07'' = Fin (1261007895663739 / 18014398509481984)"
  by (simp add: parseFloat_def skip_no_space no_space_at_digit starts_with_def parse_unsigned_007
        to_double_seven_hundredths Let_def)


lemma product_100_seven_hundredths:
  "to_double (100 * (1261007895663739 / 18014398509481984)) = Fin (7881299347898369 / 1125899906842624)"
proof -
  have "to_double (100 * (1261007895663739 / 18014398509481984))
          = Fin (of_int 7881299347898369 * pow2 (2 - 52))"
    by (rule to_double_near) (simp_all add: pow2_def)
  then show ?thesis by (simp add: pow2_def)
qed

lemma digit_chars:
  "char_of (48::nat) = CHR ''0''" "char_of (49::nat) = CHR ''1''" "char_of (50::nat) = CHR ''2''"
  "char_of (51::nat) = CHR ''3''" "char_of (52::nat) = CHR ''4''" "char_of (53::nat) = CHR ''5''"
  "char_of (54::nat) = CHR ''6''" "char_of (55::nat) = CHR ''7''" "char_of (56::nat) = CHR ''8''"
  "char_of (57::nat) = CHR ''9''"
  by code_simp+




lemma toString_8: "Number_toString (Fin 8) = ''8''"
proof -
  have "Number_toString (Fin (of_int 8)) = digits (nat 8)"
    by (rule Number_toString_int) simp_all
  then show ?thesis by (simp add: digits.simps digit_chars)
qed


text \<open>
  The product is the binary64 product: for the price \<open>0.07uscrt\<close> and the limit \<open>100\<close>
  it lies just above 7, and the fee is 8.
\<close>

lemma fee_amount_binary64_product: "fee_amount (Fin 100) ''0.07uscrt'' = ''8''"
proof -
  have c: "\<lceil>7881299347898369 / 1125899906842624 :: rat\<rceil> = 8"
    by (rule ceiling_unique) simp_all
  have "fee_amount (Fin 100) ''0.07uscrt''
          = Number_toString (Math_ceil (js_mul (Fin 100) (parseFloat ''0.07'')))"
    by (simp only: fee_amount_def strip_uscrt_007)
  also have "\<dots> = Number_toString (Math_ceil (Fin (7881299347898369 / 1125899906842624)))"
    by (simp only: parseFloat_007 js_mul.simps product_100_seven_hundredths)
  also have "\<dots> = Number_toString (Fin 8)"
    by (simp only: Math_ceil.simps c of_int_numeral)
  also have "\<dots> = ''8''"
    by (rule toString_8)
  finally show ?thesis .
qed



section \<open>Properties of \<^verbatim>\<open>ibcTransfer\<close>\<close>










end
